theory Spec2Isabelle
  imports Main "HOL-Library.Monad_Syntax"
begin

section \<open>JavaScript strings and values\<close>

text \<open>
  Strings are lists of characters. The two case conversions map the Latin letters
  \<open>A\<close>..\<open>Z\<close> and \<open>a\<close>..\<open>z\<close> onto each other and leave every other character alone, which
  is what \<open>String.prototype.toLowerCase\<close> and \<open>toUpperCase\<close> do on ASCII text.
\<close>

definition lower_char :: "char \<Rightarrow> char" where
  "lower_char c =
     (let n = of_char c :: nat in if 65 \<le> n \<and> n \<le> 90 then char_of (n + 32) else c)"

definition upper_char :: "char \<Rightarrow> char" where
  "upper_char c =
     (let n = of_char c :: nat in if 97 \<le> n \<and> n \<le> 122 then char_of (n - 32) else c)"

definition toLowerCase :: "string \<Rightarrow> string" where
  "toLowerCase s = map lower_char s"

definition toUpperCase :: "string \<Rightarrow> string" where
  "toUpperCase s = map upper_char s"

text \<open>\<open>s.includes(t)\<close>: \<open>t\<close> occurs in \<open>s\<close> as a contiguous substring.\<close>

fun starts_with :: "string \<Rightarrow> string \<Rightarrow> bool" where
  "starts_with s [] = True"
| "starts_with [] (d # t) = False"
| "starts_with (c # s) (d # t) = (c = d \<and> starts_with s t)"

fun str_includes :: "string \<Rightarrow> string \<Rightarrow> bool" where
  "str_includes [] t = (t = [])"
| "str_includes (c # s) t = (starts_with (c # s) t \<or> str_includes s t)"

text \<open>\<open>xs.join(sep)\<close> on an array of strings.\<close>

fun join :: "string \<Rightarrow> string list \<Rightarrow> string" where
  "join sep [] = []"
| "join sep [x] = x"
| "join sep (x # y # ys) = x @ sep @ join sep (y # ys)"

text \<open>The decimal numeral of a natural number and of an integer.\<close>

fun decimal :: "nat \<Rightarrow> string" where
  "decimal n =
     (if n < 10 then [char_of (48 + n)] else decimal (n div 10) @ [char_of (48 + n mod 10)])"

declare decimal.simps [simp del]

definition show_int :: "int \<Rightarrow> string" where
  "show_int i = (if i < 0 then CHR ''-'' # decimal (nat (- i)) else decimal (nat i))"

text \<open>
  A value as \<open>JSON.parse\<close> returns it, plus \<open>undefined\<close>. An object is the list of its own
  properties in the order in which \<open>Object.entries\<close> enumerates them. The code under study
  never computes with a number of a document: it tests it for zero and prints it, and
  integers stand for the numbers here (their decimal numeral is what JavaScript prints
  below \<open>10^21\<close>).
\<close>

datatype jsval =
    JUndefined
  | JNull
  | JBool bool
  | JNum int
  | JStr string
  | JArr "jsval list"
  | JObj "(string \<times> jsval) list"

text \<open>
  A JavaScript number that is \<open>NaN\<close> or has an integral value, as \<open>parseInt\<close> returns it;
  \<open>Num n\<close> is the Number value for \<open>n\<close>, which is \<open>n\<close> itself up to \<open>2^53\<close>.
\<close>

datatype number = NaN | Num int

fun truthy :: "jsval \<Rightarrow> bool" where
  "truthy JUndefined = False"
| "truthy JNull = False"
| "truthy (JBool b) = b"
| "truthy (JNum n) = (n \<noteq> 0)"
| "truthy (JStr s) = (s \<noteq> [])"
| "truthy (JArr xs) = True"
| "truthy (JObj kvs) = True"

text \<open>\<open>a || b\<close>.\<close>

definition js_or :: "jsval \<Rightarrow> jsval \<Rightarrow> jsval" where
  "js_or a b = (if truthy a then a else b)"

text \<open>
  \<open>v.k\<close> for the property names that the source reads. None of them is an array index, is
  \<open>length\<close> or is inherited from a prototype, so an object yields its own property or
  \<open>undefined\<close>, an array and a primitive yield \<open>undefined\<close>, and \<open>null\<close> and \<open>undefined\<close> raise
  a TypeError, which is \<open>None\<close> here and in every function below.
\<close>

fun get_prop :: "jsval \<Rightarrow> string \<Rightarrow> jsval option" where
  "get_prop JUndefined k = None"
| "get_prop JNull k = None"
| "get_prop (JObj kvs) k = Some (case map_of kvs k of None \<Rightarrow> JUndefined | Some v \<Rightarrow> v)"
| "get_prop v k = Some JUndefined"

text \<open>\<open>v?.k\<close>.\<close>

definition opt_prop :: "jsval \<Rightarrow> string \<Rightarrow> jsval" where
  "opt_prop v k = (case get_prop v k of None \<Rightarrow> JUndefined | Some x \<Rightarrow> x)"

text \<open>\<open>v?.[0]\<close>.\<close>

fun opt_index0 :: "jsval \<Rightarrow> jsval" where
  "opt_index0 (JArr xs) = (case xs of [] \<Rightarrow> JUndefined | x # _ \<Rightarrow> x)"
| "opt_index0 (JStr s) = (case s of [] \<Rightarrow> JUndefined | c # _ \<Rightarrow> JStr [c])"
| "opt_index0 (JObj kvs) = (case map_of kvs ''0'' of None \<Rightarrow> JUndefined | Some v \<Rightarrow> v)"
| "opt_index0 v = JUndefined"

text \<open>
  \<open>k in v\<close> for a name \<open>k\<close> as above: a TypeError unless \<open>v\<close> is an object or an array.
\<close>

fun js_in :: "string \<Rightarrow> jsval \<Rightarrow> bool option" where
  "js_in k (JObj kvs) = Some (k \<in> fst ` set kvs)"
| "js_in k (JArr xs) = Some False"
| "js_in k v = None"

text \<open>
  \<open>Object.entries(v)\<close>: the own properties of an object, the elements of an array and the
  characters of a string under their indices, nothing for a number or a boolean, and a
  TypeError for \<open>null\<close> and \<open>undefined\<close>.
\<close>

fun Object_entries :: "jsval \<Rightarrow> (string \<times> jsval) list option" where
  "Object_entries JUndefined = None"
| "Object_entries JNull = None"
| "Object_entries (JObj kvs) = Some kvs"
| "Object_entries (JArr xs) = Some (zip (map decimal [0..<length xs]) xs)"
| "Object_entries (JStr s) = Some (zip (map decimal [0..<length s]) (map (\<lambda>c. JStr [c]) s))"
| "Object_entries v = Some []"

definition Object_values :: "jsval \<Rightarrow> jsval list option" where
  "Object_values v = map_option (map snd) (Object_entries v)"

text \<open>
  The string conversion of a template literal \<open>`${v}`\<close>. An array joins the conversions of
  its elements with commas, \<open>null\<close> and \<open>undefined\<close> elements giving the empty string. A
  parsed object prints as \<open>[object Object]\<close>, unless it has an own property \<open>toString\<close>:
  that one is no function, \<open>valueOf\<close> returns no primitive, and the conversion raises a
  TypeError.
\<close>

fun ToString :: "jsval \<Rightarrow> string option" where
  "ToString JUndefined = Some ''undefined''"
| "ToString JNull = Some ''null''"
| "ToString (JBool b) = Some (if b then ''true'' else ''false'')"
| "ToString (JNum n) = Some (show_int n)"
| "ToString (JStr s) = Some s"
| "ToString (JArr xs) =
     map_option (join '','')
       (those (map (\<lambda>x. if x = JUndefined \<or> x = JNull then Some [] else ToString x) xs))"
| "ToString (JObj kvs) =
     (if ''toString'' \<in> fst ` set kvs then None else Some ''[object Object]'')"

text \<open>
  \<open>parseInt(s)\<close> without a radix: leading white space is skipped, then an optional sign,
  then \<open>0x\<close> or \<open>0X\<close> selects radix 16, and the longest prefix of digits of the radix is
  read; no digit at all gives \<open>NaN\<close>.
\<close>

definition is_space :: "char \<Rightarrow> bool" where
  "is_space c = (of_char c \<in> {9, 10, 11, 12, 13, 32 :: nat})"

definition digit_of :: "nat \<Rightarrow> char \<Rightarrow> nat option" where
  "digit_of radix c =
     (let n = of_char c :: nat;
          d = (if 48 \<le> n \<and> n \<le> 57 then Some (n - 48)
               else if 97 \<le> n \<and> n \<le> 122 then Some (n - 87)
               else if 65 \<le> n \<and> n \<le> 90 then Some (n - 55)
               else None)
      in case d of None \<Rightarrow> None | Some v \<Rightarrow> if v < radix then Some v else None)"

definition digits_value :: "nat \<Rightarrow> string \<Rightarrow> nat" where
  "digits_value radix z = foldl (\<lambda>acc c. acc * radix + the (digit_of radix c)) 0 z"

definition parseInt :: "string \<Rightarrow> number" where
  "parseInt s =
     (let s1 = dropWhile is_space s;
          sign = (if starts_with s1 ''-'' then - 1 else 1 :: int);
          s2 = (if starts_with s1 ''-'' \<or> starts_with s1 ''+'' then tl s1 else s1);
          hex = (starts_with s2 ''0x'' \<or> starts_with s2 ''0X'');
          radix = (if hex then 16 else 10);
          s3 = (if hex then drop 2 s2 else s2);
          z = takeWhile (\<lambda>c. digit_of radix c \<noteq> None) s3
      in if z = [] then NaN else Num (sign * int (digits_value radix z)))"

text \<open>
  A \<open>Set\<close> of strings is the list of its elements in insertion order; \<open>add\<close> of an element
  that is there already changes nothing, and \<open>Array.from\<close> is the list itself.
\<close>

definition set_add :: "string \<Rightarrow> string list \<Rightarrow> string list" where
  "set_add x s = (if x \<in> set s then s else s @ [x])"

section \<open>The data model\<close>

datatype http_method = GET | POST | PUT | DELETE | PATCH

fun method_name :: "http_method \<Rightarrow> string" where
  "method_name GET = ''GET''"
| "method_name POST = ''POST''"
| "method_name PUT = ''PUT''"
| "method_name DELETE = ''DELETE''"
| "method_name PATCH = ''PATCH''"

datatype auth_type = apiKey | bearer | oauth | basic

text \<open>
  The interfaces of the source. Their types are erased when the program runs, and the
  OpenAPI branch stores values of a document in them unchecked, so a field that it fills
  from a document holds a value of any kind; an optional field that is absent holds
  \<open>undefined\<close>. The field \<open>schema\<close> of a response is written nowhere and is left out.
\<close>

record APIParameter =
  p_name :: jsval
  p_type :: jsval
  p_required :: jsval
  p_description :: jsval
  p_location :: jsval
  p_example :: jsval

record APIResponse =
  statusCode :: number
  r_description :: jsval
  r_example :: jsval

record APIEndpoint =
  path :: string
  e_method :: http_method
  summary :: jsval
  e_description :: jsval
  parameters :: "APIParameter list"
  responses :: "APIResponse list"
  tags :: jsval

record Authentication =
  auth_type :: auth_type
  auth_location :: jsval
  auth_name :: jsval

record ParsedAPI =
  name :: jsval
  baseUrl :: jsval
  description :: jsval
  endpoints :: "APIEndpoint list"
  authentication :: Authentication
  capabilities :: "string list"

section \<open>The catalog of popular APIs\<close>

text \<open>The three entries of the constant \<open>POPULAR_APIS\<close>.\<close>

definition POPULAR_APIS_stripe :: ParsedAPI where
  "POPULAR_APIS_stripe =
     \<lparr>name = JStr ''Stripe'',
      baseUrl = JStr ''https://api.stripe.com/v1'',
      description = JStr ''Payment processing and subscription management'',
      endpoints =
       [\<lparr>path = ''/customers'', e_method = GET, summary = JStr ''List customers'',
        e_description = JStr ''Returns a list of your customers'',
        parameters =
          [\<lparr>p_name = JStr ''limit'', p_type = JStr ''integer'', p_required = JBool False,
            p_description = JStr ''Number of customers to return'',
            p_location = JStr ''query'', p_example = JNum 10\<rparr>,
           \<lparr>p_name = JStr ''email'', p_type = JStr ''string'', p_required = JBool False,
            p_description = JStr ''Filter by customer email'',
            p_location = JStr ''query'', p_example = JUndefined\<rparr>],
        responses =
          [\<lparr>statusCode = Num 200, r_description = JStr ''List of customers'',
            r_example = JObj [(''data'', JArr []), (''has_more'', JBool False)]\<rparr>],
        tags = JArr [JStr ''customers'']\<rparr>,
        \<lparr>path = ''/customers'', e_method = POST, summary = JStr ''Create customer'',
        e_description = JStr ''Creates a new customer object'',
        parameters =
          [\<lparr>p_name = JStr ''email'', p_type = JStr ''string'', p_required = JBool False,
            p_description = JStr ''Customer email'',
            p_location = JStr ''body'', p_example = JUndefined\<rparr>,
           \<lparr>p_name = JStr ''name'', p_type = JStr ''string'', p_required = JBool False,
            p_description = JStr ''Customer name'',
            p_location = JStr ''body'', p_example = JUndefined\<rparr>,
           \<lparr>p_name = JStr ''phone'', p_type = JStr ''string'', p_required = JBool False,
            p_description = JStr ''Customer phone'',
            p_location = JStr ''body'', p_example = JUndefined\<rparr>],
        responses =
          [\<lparr>statusCode = Num 200, r_description = JStr ''Customer created'',
            r_example = JObj [(''id'', JStr ''cus_123''), (''email'', JStr ''customer@example.com'')]\<rparr>],
        tags = JArr [JStr ''customers'']\<rparr>,
        \<lparr>path = ''/payment_intents'', e_method = POST, summary = JStr ''Create payment intent'',
        e_description = JStr ''Creates a PaymentIntent object'',
        parameters =
          [\<lparr>p_name = JStr ''amount'', p_type = JStr ''integer'', p_required = JBool True,
            p_description = JStr ''Amount in cents'',
            p_location = JStr ''body'', p_example = JNum 2000\<rparr>,
           \<lparr>p_name = JStr ''currency'', p_type = JStr ''string'', p_required = JBool True,
            p_description = JStr ''Currency code'',
            p_location = JStr ''body'', p_example = JStr ''usd''\<rparr>,
           \<lparr>p_name = JStr ''customer'', p_type = JStr ''string'', p_required = JBool False,
            p_description = JStr ''Customer ID'',
            p_location = JStr ''body'', p_example = JUndefined\<rparr>],
        responses =
          [\<lparr>statusCode = Num 200, r_description = JStr ''Payment intent created'',
            r_example = JObj [(''id'', JStr ''pi_123''), (''status'', JStr ''requires_payment_method'')]\<rparr>],
        tags = JArr [JStr ''payments'']\<rparr>,
        \<lparr>path = ''/subscriptions'', e_method = GET, summary = JStr ''List subscriptions'',
        e_description = JStr ''Returns a list of your subscriptions'',
        parameters =
          [\<lparr>p_name = JStr ''customer'', p_type = JStr ''string'', p_required = JBool False,
            p_description = JStr ''Filter by customer ID'',
            p_location = JStr ''query'', p_example = JUndefined\<rparr>,
           \<lparr>p_name = JStr ''status'', p_type = JStr ''string'', p_required = JBool False,
            p_description = JStr ''Filter by status'',
            p_location = JStr ''query'', p_example = JUndefined\<rparr>],
        responses =
          [\<lparr>statusCode = Num 200, r_description = JStr ''List of subscriptions'',
            r_example = JObj [(''data'', JArr []), (''has_more'', JBool False)]\<rparr>],
        tags = JArr [JStr ''subscriptions'']\<rparr>],
      authentication = \<lparr>auth_type = bearer, auth_location = JUndefined, auth_name = JUndefined\<rparr>,
      capabilities =
        [''Process payments'', ''Manage customers'', ''Handle subscriptions'', ''Create invoices'', ''Manage payment methods'']\<rparr>"

definition POPULAR_APIS_shopify :: ParsedAPI where
  "POPULAR_APIS_shopify =
     \<lparr>name = JStr ''Shopify'',
      baseUrl = JStr ''https://{shop}.myshopify.com/admin/api/2023-10'',
      description = JStr ''E-commerce platform for online stores'',
      endpoints =
       [\<lparr>path = ''/products.json'', e_method = GET, summary = JStr ''List products'',
        e_description = JStr ''Retrieve a list of products'',
        parameters =
          [\<lparr>p_name = JStr ''limit'', p_type = JStr ''integer'', p_required = JBool False,
            p_description = JStr ''Number of products to return'',
            p_location = JStr ''query'', p_example = JNum 50\<rparr>,
           \<lparr>p_name = JStr ''status'', p_type = JStr ''string'', p_required = JBool False,
            p_description = JStr ''Filter by status'',
            p_location = JStr ''query'', p_example = JUndefined\<rparr>],
        responses =
          [\<lparr>statusCode = Num 200, r_description = JStr ''List of products'',
            r_example = JObj [(''products'', JArr [])]\<rparr>],
        tags = JArr [JStr ''products'']\<rparr>,
        \<lparr>path = ''/orders.json'', e_method = GET, summary = JStr ''List orders'',
        e_description = JStr ''Retrieve a list of orders'',
        parameters =
          [\<lparr>p_name = JStr ''status'', p_type = JStr ''string'', p_required = JBool False,
            p_description = JStr ''Filter by order status'',
            p_location = JStr ''query'', p_example = JUndefined\<rparr>,
           \<lparr>p_name = JStr ''limit'', p_type = JStr ''integer'', p_required = JBool False,
            p_description = JStr ''Number of orders to return'',
            p_location = JStr ''query'', p_example = JNum 50\<rparr>],
        responses =
          [\<lparr>statusCode = Num 200, r_description = JStr ''List of orders'',
            r_example = JObj [(''orders'', JArr [])]\<rparr>],
        tags = JArr [JStr ''orders'']\<rparr>,
        \<lparr>path = ''/customers.json'', e_method = GET, summary = JStr ''List customers'',
        e_description = JStr ''Retrieve a list of customers'',
        parameters =
          [\<lparr>p_name = JStr ''limit'', p_type = JStr ''integer'', p_required = JBool False,
            p_description = JStr ''Number of customers to return'',
            p_location = JStr ''query'', p_example = JNum 50\<rparr>],
        responses =
          [\<lparr>statusCode = Num 200, r_description = JStr ''List of customers'',
            r_example = JObj [(''customers'', JArr [])]\<rparr>],
        tags = JArr [JStr ''customers'']\<rparr>,
        \<lparr>path = ''/inventory_levels.json'', e_method = GET, summary = JStr ''Get inventory levels'',
        e_description = JStr ''Retrieve inventory levels for products'',
        parameters =
          [\<lparr>p_name = JStr ''inventory_item_ids'', p_type = JStr ''string'', p_required = JBool False,
            p_description = JStr ''Comma-separated inventory item IDs'',
            p_location = JStr ''query'', p_example = JUndefined\<rparr>],
        responses =
          [\<lparr>statusCode = Num 200, r_description = JStr ''Inventory levels'',
            r_example = JObj [(''inventory_levels'', JArr [])]\<rparr>],
        tags = JArr [JStr ''inventory'']\<rparr>],
      authentication = \<lparr>auth_type = apiKey, auth_location = JStr ''header'',
         auth_name = JStr ''X-Shopify-Access-Token''\<rparr>,
      capabilities =
        [''Manage products'', ''Process orders'', ''Handle customers'', ''Track inventory'', ''Manage collections'']\<rparr>"

definition POPULAR_APIS_slack :: ParsedAPI where
  "POPULAR_APIS_slack =
     \<lparr>name = JStr ''Slack'',
      baseUrl = JStr ''https://slack.com/api'',
      description = JStr ''Team communication and collaboration platform'',
      endpoints =
       [\<lparr>path = ''/chat.postMessage'', e_method = POST, summary = JStr ''Send message'',
        e_description = JStr ''Sends a message to a channel'',
        parameters =
          [\<lparr>p_name = JStr ''channel'', p_type = JStr ''string'', p_required = JBool True,
            p_description = JStr ''Channel ID or name'',
            p_location = JStr ''body'', p_example = JStr ''#general''\<rparr>,
           \<lparr>p_name = JStr ''text'', p_type = JStr ''string'', p_required = JBool True,
            p_description = JStr ''Message text'',
            p_location = JStr ''body'', p_example = JStr ''Hello, world!''\<rparr>,
           \<lparr>p_name = JStr ''username'', p_type = JStr ''string'', p_required = JBool False,
            p_description = JStr ''Bot username'',
            p_location = JStr ''body'', p_example = JUndefined\<rparr>],
        responses =
          [\<lparr>statusCode = Num 200, r_description = JStr ''Message sent'',
            r_example = JObj [(''ok'', JBool True), (''ts'', JStr ''1234567890.123456'')]\<rparr>],
        tags = JArr [JStr ''messaging'']\<rparr>,
        \<lparr>path = ''/users.list'', e_method = GET, summary = JStr ''List users'',
        e_description = JStr ''Lists all users in a Slack team'',
        parameters =
          [\<lparr>p_name = JStr ''limit'', p_type = JStr ''integer'', p_required = JBool False,
            p_description = JStr ''Number of users to return'',
            p_location = JStr ''query'', p_example = JNum 100\<rparr>],
        responses =
          [\<lparr>statusCode = Num 200, r_description = JStr ''List of users'',
            r_example = JObj [(''ok'', JBool True), (''members'', JArr [])]\<rparr>],
        tags = JArr [JStr ''users'']\<rparr>,
        \<lparr>path = ''/channels.list'', e_method = GET, summary = JStr ''List channels'',
        e_description = JStr ''Lists all channels in a Slack team'',
        parameters =
          [\<lparr>p_name = JStr ''exclude_archived'', p_type = JStr ''boolean'', p_required = JBool False,
            p_description = JStr ''Exclude archived channels'',
            p_location = JStr ''query'', p_example = JBool True\<rparr>],
        responses =
          [\<lparr>statusCode = Num 200, r_description = JStr ''List of channels'',
            r_example = JObj [(''ok'', JBool True), (''channels'', JArr [])]\<rparr>],
        tags = JArr [JStr ''channels'']\<rparr>,
        \<lparr>path = ''/files.upload'', e_method = POST, summary = JStr ''Upload file'',
        e_description = JStr ''Uploads or creates a file'',
        parameters =
          [\<lparr>p_name = JStr ''channels'', p_type = JStr ''string'', p_required = JBool False,
            p_description = JStr ''Comma-separated list of channel names or IDs'',
            p_location = JStr ''body'', p_example = JUndefined\<rparr>,
           \<lparr>p_name = JStr ''content'', p_type = JStr ''string'', p_required = JBool False,
            p_description = JStr ''File contents'',
            p_location = JStr ''body'', p_example = JUndefined\<rparr>,
           \<lparr>p_name = JStr ''filename'', p_type = JStr ''string'', p_required = JBool False,
            p_description = JStr ''Filename of file'',
            p_location = JStr ''body'', p_example = JUndefined\<rparr>],
        responses =
          [\<lparr>statusCode = Num 200, r_description = JStr ''File uploaded'',
            r_example = JObj [(''ok'', JBool True), (''file'', JObj [(''id'', JStr ''F1234567890'')])]\<rparr>],
        tags = JArr [JStr ''files'']\<rparr>],
      authentication = \<lparr>auth_type = bearer, auth_location = JUndefined, auth_name = JUndefined\<rparr>,
      capabilities =
        [''Send messages'', ''Manage channels'', ''Handle users'', ''Upload files'', ''Create workflows'']\<rparr>"

section \<open>The analyzer\<close>

text \<open>
  \<open>JSON.parse\<close> and the \<open>URL\<close> constructor belong to the platform, not to the repository.
  They are parameters of the model: \<open>JSON_parse\<close> returns the parsed value or \<open>None\<close> where
  the platform raises a SyntaxError, \<open>URL_parses\<close> tells whether \<open>new URL(s)\<close> returns.
\<close>

record platform =
  JSON_parse :: "string \<Rightarrow> jsval option"
  URL_parses :: "string \<Rightarrow> bool"

text \<open>
  What a call can throw: the \<open>Error\<close> that \<open>analyzeAPI\<close> raises itself, with its message, and
  the two errors the platform raises.
\<close>

datatype error = Error string | TypeError | SyntaxError

definition UnrecognizedInputError :: error where
  "UnrecognizedInputError =
     Error ''Unable to analyze API. Please provide a valid URL or OpenAPI specification.''"

subsection \<open>detectPopularAPI\<close>

definition detectPopularAPI :: "string \<Rightarrow> ParsedAPI option" where
  "detectPopularAPI input =
     (let normalizedInput = toLowerCase input in
      if str_includes normalizedInput ''stripe'' \<or> str_includes normalizedInput ''api.stripe.com''
      then Some POPULAR_APIS_stripe
      else if str_includes normalizedInput ''shopify''
              \<or> str_includes normalizedInput ''myshopify.com''
      then Some POPULAR_APIS_shopify
      else if str_includes normalizedInput ''slack''
              \<or> str_includes normalizedInput ''slack.com/api''
      then Some POPULAR_APIS_slack
      else None)"

subsection \<open>isOpenAPISpec and isURL\<close>

text \<open>
  The function returns the value of \<open>parsed.openapi || parsed.swagger\<close> as it is, and
  \<open>false\<close> from its \<open>catch\<close>, which receives the SyntaxError of \<open>JSON.parse\<close> and the TypeError
  of a property read on \<open>null\<close>. The caller tests the result for truthiness.
\<close>

definition isOpenAPISpec :: "platform \<Rightarrow> string \<Rightarrow> jsval" where
  "isOpenAPISpec P input =
     (case do {
        parsed \<leftarrow> JSON_parse P input;
        openapi \<leftarrow> get_prop parsed ''openapi'';
        swagger \<leftarrow> get_prop parsed ''swagger'';
        Some (js_or openapi swagger)
      } of None \<Rightarrow> JBool False | Some v \<Rightarrow> v)"

definition isURL :: "platform \<Rightarrow> string \<Rightarrow> bool" where
  "isURL P input = URL_parses P input"

subsection \<open>parseAuthentication\<close>

definition parseAuthentication :: "jsval \<Rightarrow> Authentication option" where
  "parseAuthentication spec = do {
     components \<leftarrow> get_prop spec ''components'';
     let securitySchemes = opt_prop components ''securitySchemes'';
     if \<not> truthy securitySchemes
     then Some \<lparr>auth_type = apiKey, auth_location = JUndefined, auth_name = JUndefined\<rparr>
     else do {
       schemes \<leftarrow> Object_values securitySchemes;
       let firstScheme = (case schemes of [] \<Rightarrow> JUndefined | v # _ \<Rightarrow> v);
       if opt_prop firstScheme ''type'' = JStr ''http''
          \<and> opt_prop firstScheme ''scheme'' = JStr ''bearer''
       then Some \<lparr>auth_type = bearer, auth_location = JUndefined, auth_name = JUndefined\<rparr>
       else if opt_prop firstScheme ''type'' = JStr ''apiKey''
       then do {
         loc \<leftarrow> get_prop firstScheme ''in'';
         nm \<leftarrow> get_prop firstScheme ''name'';
         Some \<lparr>auth_type = apiKey, auth_location = loc, auth_name = nm\<rparr>
       }
       else Some \<lparr>auth_type = apiKey, auth_location = JUndefined, auth_name = JUndefined\<rparr>
     }
   }"

subsection \<open>generateCapabilities\<close>

text \<open>The inner loop \<open>endpoint.tags.forEach\<close>, on the elements of the array.\<close>

fun tags_loop :: "jsval list \<Rightarrow> string list \<Rightarrow> string list option" where
  "tags_loop [] caps = Some caps"
| "tags_loop (tag # rest) caps = do {
     t \<leftarrow> ToString tag;
     tags_loop rest (set_add (''Manage '' @ t) caps)
   }"

text \<open>The four \<open>if\<close> statements on the method, one after the other.\<close>

definition add_method_capability :: "http_method \<Rightarrow> string list \<Rightarrow> string list" where
  "add_method_capability m caps =
     (let c1 = (if m = GET then set_add ''Retrieve data'' caps else caps);
          c2 = (if m = POST then set_add ''Create resources'' c1 else c1);
          c3 = (if m = PUT \<or> m = PATCH then set_add ''Update resources'' c2 else c2);
          c4 = (if m = DELETE then set_add ''Delete resources'' c3 else c3)
      in c4)"

text \<open>
  The outer loop \<open>endpoints.forEach\<close>. Calling \<open>forEach\<close> on \<open>endpoint.tags\<close> raises a
  TypeError unless the tags are an array.
\<close>

fun capabilities_loop :: "APIEndpoint list \<Rightarrow> string list \<Rightarrow> string list option" where
  "capabilities_loop [] caps = Some caps"
| "capabilities_loop (endpoint # rest) caps =
     (case tags endpoint of
        JArr ts \<Rightarrow> do {
          c \<leftarrow> tags_loop ts caps;
          capabilities_loop rest (add_method_capability (e_method endpoint) c)
        }
      | _ \<Rightarrow> None)"

definition generateCapabilities :: "APIEndpoint list \<Rightarrow> string list option" where
  "generateCapabilities es = capabilities_loop es []"

subsection \<open>parseOpenAPISpec\<close>

text \<open>
  The cast of \<open>method.toUpperCase()\<close> to the method type. It is reached only under the guard
  that the key is one of the five lower-case names, where the string is one of the five
  upper-case names.
\<close>

definition as_http_method :: "string \<Rightarrow> http_method" where
  "as_http_method s =
     (if s = ''GET'' then GET else if s = ''POST'' then POST else if s = ''PUT'' then PUT
      else if s = ''DELETE'' then DELETE else PATCH)"

text \<open>The loop over \<open>methodObj.parameters\<close>, pushing onto \<open>parameters\<close>.\<close>

definition declared_parameter :: "jsval \<Rightarrow> APIParameter option" where
  "declared_parameter param = do {
     n \<leftarrow> get_prop param ''name'';
     t \<leftarrow> get_prop param ''type'';
     r \<leftarrow> get_prop param ''required'';
     d \<leftarrow> get_prop param ''description'';
     l \<leftarrow> get_prop param ''in'';
     e \<leftarrow> get_prop param ''example'';
     Some \<lparr>p_name = n, p_type = js_or t (JStr ''string''), p_required = js_or r (JBool False),
           p_description = js_or d (JStr ''''), p_location = l, p_example = e\<rparr>
   }"

fun parameters_loop :: "jsval list \<Rightarrow> APIParameter list \<Rightarrow> APIParameter list option" where
  "parameters_loop [] params = Some params"
| "parameters_loop (param # rest) params = do {
     p \<leftarrow> declared_parameter param;
     parameters_loop rest (params @ [p])
   }"

text \<open>
  \<open>if (methodObj.parameters) methodObj.parameters.forEach(...)\<close>: a truthy value that is no
  array has no \<open>forEach\<close>, and the call raises a TypeError.
\<close>

definition parse_parameters :: "jsval \<Rightarrow> APIParameter list \<Rightarrow> APIParameter list option" where
  "parse_parameters methodObj params = do {
     ps \<leftarrow> get_prop methodObj ''parameters'';
     if truthy ps
     then (case ps of JArr xs \<Rightarrow> parameters_loop xs params | _ \<Rightarrow> None)
     else Some params
   }"

text \<open>The loop over the properties of the request body schema.\<close>

definition body_parameter :: "jsval list \<Rightarrow> string \<Rightarrow> jsval \<Rightarrow> APIParameter option" where
  "body_parameter requiredProperties nm prp = do {
     t \<leftarrow> get_prop prp ''type'';
     d \<leftarrow> get_prop prp ''description'';
     e \<leftarrow> get_prop prp ''example'';
     Some \<lparr>p_name = JStr nm, p_type = js_or t (JStr ''string''),
           p_required = JBool (JStr nm \<in> set requiredProperties),
           p_description = js_or d (JStr ''''), p_location = JStr ''body'', p_example = e\<rparr>
   }"

fun properties_loop ::
  "jsval list \<Rightarrow> (string \<times> jsval) list \<Rightarrow> APIParameter list \<Rightarrow> APIParameter list option"
where
  "properties_loop requiredProperties [] params = Some params"
| "properties_loop requiredProperties ((nm, prp) # rest) params = do {
     p \<leftarrow> body_parameter requiredProperties nm prp;
     properties_loop requiredProperties rest (params @ [p])
   }"

text \<open>
  The list \<open>requiredProperties\<close>:
  \<open>('required' in schema && Array.isArray(schema.required)) ? schema.required : []\<close>.
\<close>

definition required_properties :: "jsval \<Rightarrow> jsval list option" where
  "required_properties schema = do {
     has \<leftarrow> js_in ''required'' schema;
     r \<leftarrow> get_prop schema ''required'';
     Some (if has then (case r of JArr xs \<Rightarrow> xs | _ \<Rightarrow> []) else [])
   }"

definition parse_request_body :: "jsval \<Rightarrow> APIParameter list \<Rightarrow> APIParameter list option" where
  "parse_request_body methodObj params = do {
     requestBody \<leftarrow> get_prop methodObj ''requestBody'';
     let content = opt_prop requestBody ''content'';
     if truthy content
     then do {
       jsonContent \<leftarrow> get_prop content ''application/json'';
       let schema = opt_prop jsonContent ''schema'';
       if truthy schema
       then do {
         requiredProperties \<leftarrow> required_properties schema;
         properties \<leftarrow> get_prop schema ''properties'';
         entries \<leftarrow> Object_entries (js_or properties (JObj []));
         properties_loop requiredProperties entries params
       }
       else Some params
     }
     else Some params
   }"

text \<open>The loop over \<open>methodObj.responses\<close>.\<close>

definition parse_response :: "string \<Rightarrow> jsval \<Rightarrow> APIResponse option" where
  "parse_response code response = do {
     d \<leftarrow> get_prop response ''description'';
     content \<leftarrow> get_prop response ''content'';
     Some \<lparr>statusCode = parseInt code, r_description = js_or d (JStr ''''),
           r_example = opt_prop (opt_prop content ''application/json'') ''example''\<rparr>
   }"

fun responses_loop :: "(string \<times> jsval) list \<Rightarrow> APIResponse list \<Rightarrow> APIResponse list option"
where
  "responses_loop [] resps = Some resps"
| "responses_loop ((code, response) # rest) resps = do {
     r \<leftarrow> parse_response code response;
     responses_loop rest (resps @ [r])
   }"

definition parse_responses :: "jsval \<Rightarrow> APIResponse list option" where
  "parse_responses methodObj = do {
     rs \<leftarrow> get_prop methodObj ''responses'';
     entries \<leftarrow> Object_entries (js_or rs (JObj []));
     responses_loop entries []
   }"

text \<open>The body of the guard on the method: one endpoint.\<close>

definition parse_operation :: "string \<Rightarrow> string \<Rightarrow> jsval \<Rightarrow> APIEndpoint option" where
  "parse_operation pth mth methodObj = do {
     declared \<leftarrow> parse_parameters methodObj [];
     params \<leftarrow> parse_request_body methodObj declared;
     resps \<leftarrow> parse_responses methodObj;
     s \<leftarrow> get_prop methodObj ''summary'';
     d \<leftarrow> get_prop methodObj ''description'';
     t \<leftarrow> get_prop methodObj ''tags'';
     Some \<lparr>path = pth, e_method = as_http_method (toUpperCase mth),
           summary = js_or s (JStr ''''), e_description = js_or d (JStr ''''),
           parameters = params, responses = resps, tags = js_or t (JArr [])\<rparr>
   }"

text \<open>The inner loop over the entries of one path object, pushing onto \<open>endpoints\<close>.\<close>

fun methods_loop ::
  "string \<Rightarrow> (string \<times> jsval) list \<Rightarrow> APIEndpoint list \<Rightarrow> APIEndpoint list option"
where
  "methods_loop pth [] eps = Some eps"
| "methods_loop pth ((mth, methodObj) # rest) eps =
     (if mth \<in> set [''get'', ''post'', ''put'', ''delete'', ''patch'']
      then do {
        e \<leftarrow> parse_operation pth mth methodObj;
        methods_loop pth rest (eps @ [e])
      }
      else methods_loop pth rest eps)"

text \<open>The outer loop over the entries of \<open>parsed.paths\<close>.\<close>

fun paths_loop :: "(string \<times> jsval) list \<Rightarrow> APIEndpoint list \<Rightarrow> APIEndpoint list option" where
  "paths_loop [] eps = Some eps"
| "paths_loop ((pth, pathObj) # rest) eps = do {
     entries \<leftarrow> Object_entries pathObj;
     es \<leftarrow> methods_loop pth entries eps;
     paths_loop rest es
   }"

text \<open>The function on the parsed document.\<close>

definition transform_parsed :: "jsval \<Rightarrow> ParsedAPI option" where
  "transform_parsed parsed = do {
     paths \<leftarrow> get_prop parsed ''paths'';
     entries \<leftarrow> Object_entries (js_or paths (JObj []));
     eps \<leftarrow> paths_loop entries [];
     info \<leftarrow> get_prop parsed ''info'';
     servers \<leftarrow> get_prop parsed ''servers'';
     auth \<leftarrow> parseAuthentication parsed;
     caps \<leftarrow> generateCapabilities eps;
     Some \<lparr>name = js_or (opt_prop info ''title'') (JStr ''Unknown API''),
           baseUrl = js_or (opt_prop (opt_index0 servers) ''url'') (JStr ''''),
           description = js_or (opt_prop info ''description'') (JStr ''''),
           endpoints = eps,
           authentication = auth,
           capabilities = caps\<rparr>
   }"

definition parseOpenAPISpec :: "platform \<Rightarrow> string \<Rightarrow> error + ParsedAPI" where
  "parseOpenAPISpec P spec =
     (case JSON_parse P spec of
        None \<Rightarrow> Inl SyntaxError
      | Some parsed \<Rightarrow>
          (case transform_parsed parsed of None \<Rightarrow> Inl TypeError | Some api \<Rightarrow> Inr api))"

subsection \<open>analyzeAPIFromURL\<close>

definition analyzeAPIFromURL :: "string \<Rightarrow> ParsedAPI" where
  "analyzeAPIFromURL url =
     \<lparr>name = JStr ''Custom API'',
      baseUrl = JStr url,
      description = JStr ''Custom API endpoint'',
      endpoints =
        [\<lparr>path = ''/'', e_method = GET, summary = JStr ''Root endpoint'',
          e_description = JStr ''Main API endpoint'',
          parameters = [],
          responses =
            [\<lparr>statusCode = Num 200, r_description = JStr ''Success'',
              r_example = JUndefined\<rparr>],
          tags = JArr [JStr ''general'']\<rparr>],
      authentication =
        \<lparr>auth_type = apiKey, auth_location = JUndefined, auth_name = JUndefined\<rparr>,
      capabilities = [''General API operations'']\<rparr>"

subsection \<open>analyzeAPI\<close>

definition analyzeAPI :: "platform \<Rightarrow> string \<Rightarrow> error + ParsedAPI" where
  "analyzeAPI P input =
     (case detectPopularAPI input of
        Some popularAPI \<Rightarrow> Inr popularAPI
      | None \<Rightarrow>
          if truthy (isOpenAPISpec P input) then parseOpenAPISpec P input
          else if isURL P input then Inr (analyzeAPIFromURL input)
          else Inl UnrecognizedInputError)"

subsection \<open>generateNaturalLanguageDescription\<close>

text \<open>
  The object \<open>methods\<close> built by \<open>reduce\<close>: the methods seen so far with their counts, in
  the order in which their keys were created.
\<close>

fun count_method :: "(http_method \<times> nat) list \<Rightarrow> http_method \<Rightarrow> (http_method \<times> nat) list" where
  "count_method [] m = [(m, 1)]"
| "count_method ((k, c) # acc) m =
     (if k = m then (k, c + 1) # acc else (k, c) # count_method acc m)"

definition method_counts :: "APIEndpoint list \<Rightarrow> (http_method \<times> nat) list" where
  "method_counts es = foldl (\<lambda>acc endpoint. count_method acc (e_method endpoint)) [] es"

definition operation_text :: "http_method \<times> nat \<Rightarrow> string" where
  "operation_text = (\<lambda>(m, count).
     decimal count @ '' '' @ method_name m @ '' endpoint'' @ (if count > 1 then ''s'' else ''''))"

definition generateNaturalLanguageDescription :: "ParsedAPI \<Rightarrow> string option" where
  "generateNaturalLanguageDescription api = do {
     n \<leftarrow> ToString (name api);
     d \<leftarrow> ToString (description api);
     Some (n @ '' is '' @ d @ ''. ''
       @ ''It provides '' @ decimal (length (capabilities api)) @ '' main capabilities: ''
       @ join '', '' (capabilities api) @ ''. ''
       @ ''The API has '' @ decimal (length (endpoints api))
       @ '' endpoints available for integration. ''
       @ ''Available operations include: ''
       @ join '', '' (map operation_text (method_counts (endpoints api)))
       @ ''.'')
   }"

section \<open>Definitions that follow the specification\<close>

text \<open>
  The definitions of this section are written from the words of the specification, to be
  compared with the functions of the source above.
\<close>

subsection \<open>Vendor signatures\<close>

text \<open>
  The signature substrings of the three vendors, in the order Stripe, Shopify, Slack, and
  the first vendor of that order with a signature in the lower-cased input.
\<close>

definition has_signature :: "string list \<Rightarrow> string \<Rightarrow> bool" where
  "has_signature sigs input = list_ex (str_includes (toLowerCase input)) sigs"

definition stripe_signatures :: "string list" where
  "stripe_signatures = [''stripe'', ''api.stripe.com'']"

definition shopify_signatures :: "string list" where
  "shopify_signatures = [''shopify'', ''myshopify.com'']"

definition slack_signatures :: "string list" where
  "slack_signatures = [''slack'', ''slack.com/api'']"

definition vendor_table :: "(string list \<times> ParsedAPI) list" where
  "vendor_table =
     [(stripe_signatures, POPULAR_APIS_stripe),
      (shopify_signatures, POPULAR_APIS_shopify),
      (slack_signatures, POPULAR_APIS_slack)]"

definition first_matching_vendor :: "string \<Rightarrow> ParsedAPI option" where
  "first_matching_vendor input =
     map_option snd (find (\<lambda>(sigs, api). has_signature sigs input) vendor_table)"

subsection \<open>Deduplication in order of first occurrence\<close>

function first_occurrences :: "'a list \<Rightarrow> 'a list" where
  "first_occurrences [] = []"
| "first_occurrences (x # xs) = x # first_occurrences (removeAll x xs)"
  by pat_completeness auto
termination
  by (relation "measure length") (auto simp: less_Suc_eq_le length_removeAll_less_eq)

subsection \<open>Capabilities\<close>

text \<open>The capability of a method, and the strings an endpoint list contributes, in order.\<close>

fun method_capability :: "http_method \<Rightarrow> string" where
  "method_capability GET = ''Retrieve data''"
| "method_capability POST = ''Create resources''"
| "method_capability PUT = ''Update resources''"
| "method_capability PATCH = ''Update resources''"
| "method_capability DELETE = ''Delete resources''"

definition tag_texts :: "jsval \<Rightarrow> string list option" where
  "tag_texts v = (case v of JArr ts \<Rightarrow> those (map ToString ts) | _ \<Rightarrow> None)"

definition endpoint_capabilities :: "APIEndpoint \<Rightarrow> string list option" where
  "endpoint_capabilities e =
     map_option (\<lambda>ts. map (\<lambda>t. ''Manage '' @ t) ts @ [method_capability (e_method e)])
       (tag_texts (tags e))"

definition added_capabilities :: "APIEndpoint list \<Rightarrow> string list option" where
  "added_capabilities es = map_option concat (those (map endpoint_capabilities es))"

subsection \<open>The operations of a document\<close>

text \<open>
  The (path, method) pairs of the \<open>paths\<close> mapping of a document, in the order of the
  document, and the five method keys that the transform keeps.
\<close>

definition entries_of :: "jsval \<Rightarrow> (string \<times> jsval) list" where
  "entries_of v = (case Object_entries v of None \<Rightarrow> [] | Some es \<Rightarrow> es)"

definition path_method_pairs :: "jsval \<Rightarrow> (string \<times> string) list" where
  "path_method_pairs parsed =
     concat (map (\<lambda>(p, pathObj). map (\<lambda>(m, methodObj). (p, m)) (entries_of pathObj))
       (entries_of (js_or (opt_prop parsed ''paths'') (JObj []))))"

definition supported_verbs :: "string list" where
  "supported_verbs = [''get'', ''post'', ''put'', ''delete'', ''patch'']"

text \<open>The path and the method name of an endpoint.\<close>

definition endpoint_key :: "APIEndpoint \<Rightarrow> string \<times> string" where
  "endpoint_key e = (path e, method_name (e_method e))"

subsection \<open>Request bodies and responses\<close>

text \<open>
  The schema of the \<open>application/json\<close> request body of an operation, the properties it
  declares and its \<open>required\<close> list, empty when the schema has none.
\<close>

definition json_body_schema :: "jsval \<Rightarrow> jsval" where
  "json_body_schema methodObj =
     opt_prop (opt_prop (opt_prop (opt_prop methodObj ''requestBody'') ''content'')
       ''application/json'') ''schema''"

definition declared_properties :: "jsval \<Rightarrow> (string \<times> jsval) list" where
  "declared_properties schema = entries_of (js_or (opt_prop schema ''properties'') (JObj []))"

definition required_list :: "jsval \<Rightarrow> jsval list" where
  "required_list schema = (case opt_prop schema ''required'' of JArr xs \<Rightarrow> xs | _ \<Rightarrow> [])"

text \<open>A value that has properties to read: anything but \<open>null\<close> and \<open>undefined\<close>.\<close>

definition readable :: "jsval \<Rightarrow> bool" where
  "readable v = (v \<noteq> JNull \<and> v \<noteq> JUndefined)"

text \<open>The responses that an operation declares, and the example of a response.\<close>

definition declared_responses :: "jsval \<Rightarrow> (string \<times> jsval) list" where
  "declared_responses methodObj = entries_of (js_or (opt_prop methodObj ''responses'') (JObj []))"

definition json_example :: "jsval \<Rightarrow> jsval" where
  "json_example response =
     opt_prop (opt_prop (opt_prop response ''content'') ''application/json'') ''example''"

subsection \<open>Documents of the declared shape\<close>

text \<open>
  The shape that the interfaces \<open>OpenAPISpec\<close> and \<open>OpenAPIPathItem\<close> declare, as far as the
  transform reads it: the document, its \<open>paths\<close>, every path item and every operation
  under one of the five method keys are objects; the \<open>parameters\<close> of an operation, where
  present, are an array of objects; the schema of its JSON request body, where present,
  is an object whose properties are objects; its responses are objects; and its \<open>tags\<close>,
  where present, are an array of strings.
\<close>

definition is_object :: "jsval \<Rightarrow> bool" where
  "is_object v = (case v of JObj kvs \<Rightarrow> True | _ \<Rightarrow> False)"

definition is_string :: "jsval \<Rightarrow> bool" where
  "is_string v = (case v of JStr s \<Rightarrow> True | _ \<Rightarrow> False)"

definition array_of :: "(jsval \<Rightarrow> bool) \<Rightarrow> jsval \<Rightarrow> bool" where
  "array_of P v = (case v of JArr xs \<Rightarrow> list_all P xs | _ \<Rightarrow> False)"

definition absent_or :: "(jsval \<Rightarrow> bool) \<Rightarrow> jsval \<Rightarrow> bool" where
  "absent_or P v = (if v = JUndefined then True else P v)"

definition shaped_schema :: "jsval \<Rightarrow> bool" where
  "shaped_schema schema =
     (is_object schema \<and> list_all is_object (map snd (declared_properties schema)))"

definition shaped_operation :: "jsval \<Rightarrow> bool" where
  "shaped_operation methodObj =
     (is_object methodObj
      \<and> absent_or (array_of is_object) (opt_prop methodObj ''parameters'')
      \<and> absent_or shaped_schema (json_body_schema methodObj)
      \<and> list_all is_object (map snd (declared_responses methodObj))
      \<and> absent_or (array_of is_string) (opt_prop methodObj ''tags''))"

text \<open>An endpoint whose tags are an array of strings.\<close>

definition string_tags :: "APIEndpoint \<Rightarrow> bool" where
  "string_tags e = array_of is_string (tags e)"

definition supported_entries :: "jsval \<Rightarrow> (string \<times> jsval) list" where
  "supported_entries pathObj =
     filter (\<lambda>(m, methodObj). m \<in> set supported_verbs) (entries_of pathObj)"

definition shaped_path_item :: "jsval \<Rightarrow> bool" where
  "shaped_path_item pathObj =
     (is_object pathObj \<and> list_all shaped_operation (map snd (supported_entries pathObj)))"

definition shaped_paths :: "jsval \<Rightarrow> bool" where
  "shaped_paths paths = (is_object paths \<and> list_all shaped_path_item (map snd (entries_of paths)))"

definition shaped_document :: "jsval \<Rightarrow> bool" where
  "shaped_document parsed =
     (is_object parsed \<and> absent_or shaped_paths (opt_prop parsed ''paths''))"

subsection \<open>Security schemes\<close>

text \<open>
  The authentication that the specification assigns to one security scheme, and the
  default for any other scheme and for no scheme at all.
\<close>

definition default_authentication :: Authentication where
  "default_authentication =
     \<lparr>auth_type = apiKey, auth_location = JUndefined, auth_name = JUndefined\<rparr>"

definition auth_of_scheme :: "jsval \<Rightarrow> Authentication" where
  "auth_of_scheme s =
     (if opt_prop s ''type'' = JStr ''http'' \<and> opt_prop s ''scheme'' = JStr ''bearer''
      then \<lparr>auth_type = bearer, auth_location = JUndefined, auth_name = JUndefined\<rparr>
      else if opt_prop s ''type'' = JStr ''apiKey''
      then \<lparr>auth_type = apiKey, auth_location = opt_prop s ''in'',
            auth_name = opt_prop s ''name''\<rparr>
      else default_authentication)"

definition security_schemes :: "jsval \<Rightarrow> jsval" where
  "security_schemes spec = opt_prop (opt_prop spec ''components'') ''securitySchemes''"

definition first_declared :: "(string \<times> jsval) list \<Rightarrow> Authentication" where
  "first_declared members =
     (case members of [] \<Rightarrow> default_authentication | (k, s) # _ \<Rightarrow> auth_of_scheme s)"

text \<open>
  The object that \<open>JSON.parse\<close> builds from the members of an object of the text, given in
  the order of the text. A member whose name is there already replaces the value and
  keeps the place. The own properties of a JavaScript object are enumerated with the
  array indices first, in ascending numeric order, and the other names after them, in the
  order of their creation; an array index is the canonical decimal numeral of a number
  below \<open>2^32 - 1 = 4294967295\<close>, which has ten digits.
\<close>

fun digits_below :: "string \<Rightarrow> string \<Rightarrow> bool" where
  "digits_below (c # cs) (d # ds) =
     ((of_char c :: nat) < of_char d \<or> (c = d \<and> digits_below cs ds))"
| "digits_below cs ds = False"

definition is_array_index :: "string \<Rightarrow> bool" where
  "is_array_index k =
     (if k = [] \<or> \<not> list_all (\<lambda>c. digit_of 10 c \<noteq> None) k then False
      else if hd k = CHR ''0'' then k = ''0''
      else length k < 10 \<or> (length k = 10 \<and> digits_below k ''4294967295''))"

fun create_property :: "(string \<times> jsval) list \<Rightarrow> string \<Rightarrow> jsval \<Rightarrow> (string \<times> jsval) list" where
  "create_property [] k v = [(k, v)]"
| "create_property ((k', v') # kvs) k v =
     (if k' = k then (k, v) # kvs else (k', v') # create_property kvs k v)"

definition index_named :: "string \<times> jsval \<Rightarrow> bool" where
  "index_named kv = is_array_index (fst kv)"

definition other_named :: "string \<times> jsval \<Rightarrow> bool" where
  "other_named kv = (\<not> is_array_index (fst kv))"

definition index_of :: "string \<times> jsval \<Rightarrow> nat" where
  "index_of kv = digits_value 10 (fst kv)"

definition own_property_order :: "(string \<times> jsval) list \<Rightarrow> (string \<times> jsval) list" where
  "own_property_order kvs = sort_key index_of (filter index_named kvs) @ filter other_named kvs"

definition json_object :: "(string \<times> jsval) list \<Rightarrow> jsval" where
  "json_object members =
     JObj (own_property_order (foldl (\<lambda>acc (k, v). create_property acc k v) [] members))"

subsection \<open>The method breakdown of a description\<close>

text \<open>
  The elements of a list in order of first occurrence, each with the number of its
  occurrences; the methods of an endpoint list in order of first occurrence, each with
  the number of endpoints that have it; and the noun in its singular or plural form.
\<close>

definition tally :: "'a list \<Rightarrow> ('a \<times> nat) list" where
  "tally xs = map (\<lambda>x. (x, count_list xs x)) (first_occurrences xs)"

definition method_breakdown :: "APIEndpoint list \<Rightarrow> (http_method \<times> nat) list" where
  "method_breakdown es =
     map (\<lambda>m. (m, length (filter (\<lambda>e. e_method e = m) es))) (first_occurrences (map e_method es))"

definition endpoint_noun :: "nat \<Rightarrow> string" where
  "endpoint_noun count = (if count = 1 then ''endpoint'' else ''endpoints'')"

definition breakdown_text :: "(http_method \<times> nat) list \<Rightarrow> string" where
  "breakdown_text groups =
     join '', '' (map (\<lambda>(m, count).
       decimal count @ '' '' @ method_name m @ '' '' @ endpoint_noun count) groups)"

subsection \<open>A platform for the examples\<close>

text \<open>
  How the platform answers on the inputs of the examples below: the texts that parse as
  JSON with their values, and the inputs that parse as URLs.
\<close>

definition sample_platform :: platform where
  \<open>sample_platform =
     \<lparr>JSON_parse = map_of
        [(''{"openapi":"3.0.0"}'', JObj [(''openapi'', JStr ''3.0.0'')]),
         (''{"swagger":"2.0","info":{"title":"stripe"}}'',
          JObj [(''swagger'', JStr ''2.0''), (''info'', JObj [(''title'', JStr ''stripe'')])]),
         (''{"openapi":"3.0.0","paths":{"/x":null}}'',
          JObj [(''openapi'', JStr ''3.0.0''), (''paths'', JObj [(''/x'', JNull)])]),
         (''{"openapi":""}'', JObj [(''openapi'', JStr '''')]),
         (''null'', JNull),
         (''42'', JNum 42)],
      URL_parses = (\<lambda>s. s \<in> set [''http://x'', ''https://api.stripe.com/v1/x'',
        ''https://example.org/api''])\<rparr>\<close>

text \<open>An endpoint with a method and tags, for the examples.\<close>

definition sample_endpoint :: "http_method \<Rightarrow> string list \<Rightarrow> APIEndpoint" where
  "sample_endpoint m ts =
     \<lparr>path = ''/orders'', e_method = m, summary = JStr '''', e_description = JStr '''',
      parameters = [], responses = [], tags = JArr (map JStr ts)\<rparr>"

text \<open>
  A document for the examples: two paths, with the methods \<open>get\<close>, \<open>options\<close> and \<open>post\<close> on
  the first and \<open>head\<close> and \<open>delete\<close> on the second.
\<close>

definition sample_get :: jsval where
  "sample_get =
     JObj [(''summary'', JStr ''List orders''),
       (''parameters'', JArr [JObj [(''name'', JStr ''limit''), (''in'', JStr ''query''),
          (''type'', JStr ''integer'')]]),
       (''responses'', JObj
          [(''200'', JObj [(''description'', JStr ''OK''),
             (''content'', JObj [(''application/json'',
                JObj [(''example'', JObj [(''orders'', JArr [])])])])]),
           (''404'', JObj [])]),
       (''tags'', JArr [JStr ''orders''])]"

definition sample_schema :: "(string \<times> jsval) list" where
  "sample_schema =
     [(''type'', JStr ''object''),
      (''properties'', JObj [(''a'', JObj [(''type'', JStr ''integer'')]),
         (''note'', JObj [(''description'', JStr ''Free text'')])]),
      (''required'', JArr [JStr ''a''])]"

definition sample_post :: jsval where
  "sample_post =
     JObj [(''requestBody'', JObj [(''content'', JObj [(''application/json'',
          JObj [(''schema'', JObj sample_schema)])])]),
       (''responses'', JObj [(''201'', JObj [(''description'', JStr ''Created'')])]),
       (''tags'', JArr [JStr ''orders''])]"

definition sample_document :: jsval where
  "sample_document =
     JObj [(''openapi'', JStr ''3.0.0''),
       (''info'', JObj [(''title'', JStr ''Orders API'')]),
       (''servers'', JArr [JObj [(''url'', JStr ''https://api.example.org/v1'')]]),
       (''paths'', JObj
          [(''/orders'', JObj
              [(''get'', sample_get),
               (''options'', JObj [(''responses'', JObj [(''204'', JObj [])])]),
               (''post'', sample_post)]),
           (''/orders/{id}'', JObj
              [(''head'', JObj [(''responses'', JObj [(''200'', JObj [])])]),
               (''delete'', JObj [(''responses'', JObj [(''204'', JObj [])]),
                  (''tags'', JArr [JStr ''orders''])])])]),
       (''components'', JObj [(''securitySchemes'', JObj
          [(''ApiKeyAuth'', JObj [(''type'', JStr ''apiKey''), (''in'', JStr ''header''),
             (''name'', JStr ''X-API-Key'')])])])]"

text \<open>
  An operation whose request body has the schema
  \<open>{type: "object", properties: {"a": {type: "integer"}}, required: ["a"]}\<close>.
\<close>

definition body_example_operation :: jsval where
  "body_example_operation =
     JObj [(''requestBody'', JObj [(''content'', JObj [(''application/json'',
       JObj [(''schema'', JObj [(''type'', JStr ''object''),
          (''properties'', JObj [(''a'', JObj [(''type'', JStr ''integer'')])]),
          (''required'', JArr [JStr ''a''])])])])])]"

text \<open>
  A document whose security schemes are declared under the names \<open>primary\<close> and \<open>2\<close>, in
  this order: an API key in a header first and an HTTP bearer scheme second.
\<close>

definition index_named_schemes :: "(string \<times> jsval) list" where
  "index_named_schemes =
     [(''primary'', JObj [(''type'', JStr ''apiKey''), (''in'', JStr ''header''),
         (''name'', JStr ''X-API-Key'')]),
      (''2'', JObj [(''type'', JStr ''http''), (''scheme'', JStr ''bearer'')])]"

definition index_named_document :: jsval where
  "index_named_document =
     JObj [(''openapi'', JStr ''3.0.0''),
       (''components'', JObj [(''securitySchemes'', json_object index_named_schemes)])]"

text \<open>The security schemes of the sample document, as its text declares them.\<close>

definition sample_schemes :: "(string \<times> jsval) list" where
  "sample_schemes =
     [(''ApiKeyAuth'', JObj [(''type'', JStr ''apiKey''), (''in'', JStr ''header''),
         (''name'', JStr ''X-API-Key'')])]"

text \<open>
  An API with three endpoints, for the examples: one POST and two GET endpoints, with the
  POST endpoint first and with a GET endpoint first.
\<close>

definition sample_api :: "APIEndpoint list \<Rightarrow> ParsedAPI" where
  "sample_api es =
     \<lparr>name = JStr ''Orders API'', baseUrl = JStr ''https://api.example.org/v1'',
      description = JStr ''Order management'', endpoints = es,
      authentication =
        \<lparr>auth_type = bearer, auth_location = JUndefined, auth_name = JUndefined\<rparr>,
      capabilities = [''Manage orders'', ''Retrieve data'', ''Create resources'']\<rparr>"

definition post_first_endpoints :: "APIEndpoint list" where
  "post_first_endpoints =
     [sample_endpoint POST [''orders''], sample_endpoint GET [''orders''],
      sample_endpoint GET [''orders'']]"

definition get_first_endpoints :: "APIEndpoint list" where
  "get_first_endpoints =
     [sample_endpoint GET [''orders''], sample_endpoint POST [''orders''],
      sample_endpoint GET [''orders'']]"

section \<open>Classification\<close>

lemma detectPopularAPI_cases:
  "detectPopularAPI input =
     (if has_signature stripe_signatures input then Some POPULAR_APIS_stripe
      else if has_signature shopify_signatures input then Some POPULAR_APIS_shopify
      else if has_signature slack_signatures input then Some POPULAR_APIS_slack
      else None)"
  by (simp add: detectPopularAPI_def has_signature_def stripe_signatures_def
      shopify_signatures_def slack_signatures_def Let_def)

lemma catalog_distinct:
  "POPULAR_APIS_stripe \<noteq> POPULAR_APIS_shopify"
  "POPULAR_APIS_stripe \<noteq> POPULAR_APIS_slack"
  "POPULAR_APIS_shopify \<noteq> POPULAR_APIS_slack"
  by (simp_all add: POPULAR_APIS_stripe_def POPULAR_APIS_shopify_def POPULAR_APIS_slack_def)

lemma isOpenAPISpec_parse_failure:
  "JSON_parse P input = None \<Longrightarrow> isOpenAPISpec P input = JBool False"
  by (simp add: isOpenAPISpec_def)

lemma isOpenAPISpec_truthy_parsed:
  "truthy (isOpenAPISpec P input) \<Longrightarrow> \<exists>parsed. JSON_parse P input = Some parsed"
  by (cases "JSON_parse P input") (simp_all add: isOpenAPISpec_def)

lemma parseOpenAPISpec_errors:
  "parseOpenAPISpec P input \<noteq> Inl UnrecognizedInputError"
  "JSON_parse P input \<noteq> None \<Longrightarrow> parseOpenAPISpec P input \<noteq> Inl SyntaxError"
  by (auto simp: parseOpenAPISpec_def UnrecognizedInputError_def split: option.splits)

lemma analyzeAPI_no_SyntaxError: "analyzeAPI P input \<noteq> Inl SyntaxError"
proof (cases "truthy (isOpenAPISpec P input)")
  case True
  then obtain parsed where "JSON_parse P input = Some parsed"
    using isOpenAPISpec_truthy_parsed by blast
  then have "parseOpenAPISpec P input \<noteq> Inl SyntaxError"
    by (simp add: parseOpenAPISpec_errors)
  with True show ?thesis
    by (simp add: analyzeAPI_def split: option.splits)
next
  case False
  then show ?thesis
    by (simp add: analyzeAPI_def UnrecognizedInputError_def split: option.splits)
qed

text \<open>
  Claim C1. For every input string, \<open>analyzeAPI\<close> tries the known-vendor match first, the
  OpenAPI/Swagger document second and the bare URL third, and the first that applies
  decides the result: a vendor match returns the catalog record whatever the other two
  tests say, a document without vendor signature is handed to \<open>parseOpenAPISpec\<close>
  whether or not it is a URL, and a URL is reached only after the other two. The call
  fails with the unrecognized-input error if and only if none of the three applies. A
  failure of \<open>JSON.parse\<close> never reaches the caller: no call ends in a SyntaxError, and an
  input that does not parse and has no vendor signature is classified as a URL or
  rejected as unrecognized. (A document that is classified as OpenAPI and is not of the
  declared shape makes the transform raise a TypeError, which is another error.)
\<close>

theorem analyzeAPI_classification:
  "(\<forall>api. detectPopularAPI input = Some api \<longrightarrow> analyzeAPI P input = Inr api)
   \<and> (detectPopularAPI input = None \<and> truthy (isOpenAPISpec P input)
        \<longrightarrow> analyzeAPI P input = parseOpenAPISpec P input)
   \<and> (detectPopularAPI input = None \<and> \<not> truthy (isOpenAPISpec P input) \<and> isURL P input
        \<longrightarrow> analyzeAPI P input = Inr (analyzeAPIFromURL input))
   \<and> (analyzeAPI P input = Inl UnrecognizedInputError
        \<longleftrightarrow> detectPopularAPI input = None \<and> \<not> truthy (isOpenAPISpec P input)
            \<and> \<not> isURL P input)
   \<and> analyzeAPI P input \<noteq> Inl SyntaxError
   \<and> (JSON_parse P input = None \<and> detectPopularAPI input = None
        \<longrightarrow> analyzeAPI P input =
            (if isURL P input then Inr (analyzeAPIFromURL input)
             else Inl UnrecognizedInputError))"
proof (intro conjI)
  show "analyzeAPI P input = Inl UnrecognizedInputError
        \<longleftrightarrow> detectPopularAPI input = None \<and> \<not> truthy (isOpenAPISpec P input)
            \<and> \<not> isURL P input"
    using parseOpenAPISpec_errors(1) [of P input]
    by (auto simp: analyzeAPI_def split: option.splits)
  show "analyzeAPI P input \<noteq> Inl SyntaxError"
    by (rule analyzeAPI_no_SyntaxError)
  show "JSON_parse P input = None \<and> detectPopularAPI input = None
        \<longrightarrow> analyzeAPI P input =
            (if isURL P input then Inr (analyzeAPIFromURL input)
             else Inl UnrecognizedInputError)"
    by (simp add: analyzeAPI_def isOpenAPISpec_parse_failure)
qed (simp_all add: analyzeAPI_def)

theorem analyzeAPI_classification_witness:
  \<open>detectPopularAPI ''{"swagger":"2.0","info":{"title":"stripe"}}'' = Some POPULAR_APIS_stripe
   \<and> truthy (isOpenAPISpec sample_platform ''{"swagger":"2.0","info":{"title":"stripe"}}'')
   \<and> analyzeAPI sample_platform ''{"swagger":"2.0","info":{"title":"stripe"}}''
       = Inr POPULAR_APIS_stripe
   \<and> detectPopularAPI ''{"openapi":"3.0.0"}'' = None
   \<and> truthy (isOpenAPISpec sample_platform ''{"openapi":"3.0.0"}'')
   \<and> analyzeAPI sample_platform ''{"openapi":"3.0.0"}''
       = parseOpenAPISpec sample_platform ''{"openapi":"3.0.0"}''
   \<and> detectPopularAPI ''http://x'' = None
   \<and> JSON_parse sample_platform ''http://x'' = None
   \<and> \<not> truthy (isOpenAPISpec sample_platform ''http://x'')
   \<and> isURL sample_platform ''http://x''
   \<and> analyzeAPI sample_platform ''http://x'' = Inr (analyzeAPIFromURL ''http://x'')
   \<and> detectPopularAPI ''{"openapi":'' = None
   \<and> \<not> truthy (isOpenAPISpec sample_platform ''{"openapi":'')
   \<and> \<not> isURL sample_platform ''{"openapi":''
   \<and> analyzeAPI sample_platform ''{"openapi":'' = Inl UnrecognizedInputError\<close>
proof -
  have v: \<open>detectPopularAPI ''{"swagger":"2.0","info":{"title":"stripe"}}''
           = Some POPULAR_APIS_stripe
         \<and> truthy (isOpenAPISpec sample_platform ''{"swagger":"2.0","info":{"title":"stripe"}}'')\<close>
    by code_simp
  have d: \<open>detectPopularAPI ''{"openapi":"3.0.0"}'' = None
         \<and> truthy (isOpenAPISpec sample_platform ''{"openapi":"3.0.0"}'')\<close>
    by code_simp
  have u: \<open>detectPopularAPI ''http://x'' = None
         \<and> JSON_parse sample_platform ''http://x'' = None
         \<and> \<not> truthy (isOpenAPISpec sample_platform ''http://x'')
         \<and> isURL sample_platform ''http://x''\<close>
    by code_simp
  have n: \<open>detectPopularAPI ''{"openapi":'' = None
         \<and> \<not> truthy (isOpenAPISpec sample_platform ''{"openapi":'')
         \<and> \<not> isURL sample_platform ''{"openapi":''\<close>
    by code_simp
  note c1 = analyzeAPI_classification [of \<open>''{"swagger":"2.0","info":{"title":"stripe"}}''\<close> sample_platform]
  note c2 = analyzeAPI_classification [of \<open>''{"openapi":"3.0.0"}''\<close> sample_platform]
  note c3 = analyzeAPI_classification [of \<open>''http://x''\<close> sample_platform]
  note c4 = analyzeAPI_classification [of \<open>''{"openapi":''\<close> sample_platform]
  have r1: \<open>analyzeAPI sample_platform ''{"swagger":"2.0","info":{"title":"stripe"}}''
       = Inr POPULAR_APIS_stripe\<close>
    using c1 v by blast
  have r2: \<open>analyzeAPI sample_platform ''{"openapi":"3.0.0"}''
       = parseOpenAPISpec sample_platform ''{"openapi":"3.0.0"}''\<close>
    using c2 d by blast
  have r3: \<open>analyzeAPI sample_platform ''http://x'' = Inr (analyzeAPIFromURL ''http://x'')\<close>
    using c3 u by blast
  have r4: \<open>analyzeAPI sample_platform ''{"openapi":'' = Inl UnrecognizedInputError\<close>
    using c4 n by blast
  show ?thesis
    using v d u n r1 r2 r3 r4 by simp
qed

text \<open>
  A document that is classified as OpenAPI and whose path item is \<open>null\<close>: the transform
  raises a TypeError, and \<open>analyzeAPI\<close> passes it on.
\<close>

lemma analyzeAPI_type_error_example:
  \<open>analyzeAPI sample_platform ''{"openapi":"3.0.0","paths":{"/x":null}}'' = Inl TypeError\<close>
  by code_simp

section \<open>Known vendors\<close>

text \<open>
  Claim C2, as amended. An input whose lower-cased form contains a signature of Stripe
  gets the Stripe record of the catalog, unchanged, whatever else it contains. An input
  with a signature of Shopify gets the Shopify record provided that it contains no
  signature of Stripe, and an input with a signature of Slack gets the Slack record
  provided that it contains no signature of Stripe or Shopify.
\<close>

theorem analyzeAPI_vendor_record:
  "(has_signature stripe_signatures input \<longrightarrow> analyzeAPI P input = Inr POPULAR_APIS_stripe)
   \<and> (has_signature shopify_signatures input \<and> \<not> has_signature stripe_signatures input
        \<longrightarrow> analyzeAPI P input = Inr POPULAR_APIS_shopify)
   \<and> (has_signature slack_signatures input \<and> \<not> has_signature stripe_signatures input
        \<and> \<not> has_signature shopify_signatures input
        \<longrightarrow> analyzeAPI P input = Inr POPULAR_APIS_slack)"
  by (simp add: analyzeAPI_def detectPopularAPI_cases)

theorem analyzeAPI_vendor_record_witness:
  "has_signature stripe_signatures ''https://api.stripe.com/v1/x''
   \<and> analyzeAPI sample_platform ''https://api.stripe.com/v1/x'' = Inr POPULAR_APIS_stripe
   \<and> has_signature shopify_signatures ''My Shopify store''
   \<and> \<not> has_signature stripe_signatures ''My Shopify store''
   \<and> analyzeAPI sample_platform ''My Shopify store'' = Inr POPULAR_APIS_shopify
   \<and> has_signature slack_signatures ''https://slack.com/api/chat.postMessage''
   \<and> \<not> has_signature stripe_signatures ''https://slack.com/api/chat.postMessage''
   \<and> \<not> has_signature shopify_signatures ''https://slack.com/api/chat.postMessage''
   \<and> analyzeAPI sample_platform ''https://slack.com/api/chat.postMessage''
       = Inr POPULAR_APIS_slack"
proof -
  have a: "has_signature stripe_signatures ''https://api.stripe.com/v1/x''"
    by code_simp
  have b: "has_signature shopify_signatures ''My Shopify store''
           \<and> \<not> has_signature stripe_signatures ''My Shopify store''"
    by code_simp
  have c: "has_signature slack_signatures ''https://slack.com/api/chat.postMessage''
           \<and> \<not> has_signature stripe_signatures ''https://slack.com/api/chat.postMessage''
           \<and> \<not> has_signature shopify_signatures ''https://slack.com/api/chat.postMessage''"
    by code_simp
  have ra: "analyzeAPI sample_platform ''https://api.stripe.com/v1/x'' = Inr POPULAR_APIS_stripe"
    using analyzeAPI_vendor_record [of "''https://api.stripe.com/v1/x''" sample_platform] a
    by blast
  have rb: "analyzeAPI sample_platform ''My Shopify store'' = Inr POPULAR_APIS_shopify"
    using analyzeAPI_vendor_record [of "''My Shopify store''" sample_platform] b
    by blast
  have rc: "analyzeAPI sample_platform ''https://slack.com/api/chat.postMessage''
            = Inr POPULAR_APIS_slack"
    using analyzeAPI_vendor_record [of "''https://slack.com/api/chat.postMessage''" sample_platform] c
    by blast
  show ?thesis
    using a b c ra rb rc by simp
qed

text \<open>
  The claim as it is written fails for Shopify and Slack: the input \<open>stripe or slack\<close>
  contains a signature of Slack and gets the Stripe record.
\<close>

theorem analyzeAPI_vendor_record_counterexample:
  "has_signature slack_signatures ''stripe or slack''
   \<and> analyzeAPI sample_platform ''stripe or slack'' \<noteq> Inr POPULAR_APIS_slack"
proof -
  have a: "has_signature slack_signatures ''stripe or slack''"
    by code_simp
  have b: "has_signature stripe_signatures ''stripe or slack''"
    by code_simp
  have "analyzeAPI sample_platform ''stripe or slack'' = Inr POPULAR_APIS_stripe"
    using b by (simp add: analyzeAPI_def detectPopularAPI_cases)
  then show ?thesis
    using a catalog_distinct(2) by simp
qed

text \<open>
  Claim C10. Vendor detection has a fixed precedence: \<open>analyzeAPI\<close> returns the record of
  the first vendor, in the order Stripe, Shopify, Slack, that has a signature in the
  lower-cased input, also when later vendors have one too.
\<close>

theorem analyzeAPI_vendor_precedence:
  "first_matching_vendor input = Some api \<Longrightarrow> analyzeAPI P input = Inr api"
  by (auto simp: analyzeAPI_def detectPopularAPI_cases first_matching_vendor_def vendor_table_def
      split: if_splits)

theorem analyzeAPI_vendor_precedence_witness:
  "has_signature slack_signatures ''post to Slack when Stripe charges''
   \<and> has_signature stripe_signatures ''post to Slack when Stripe charges''
   \<and> first_matching_vendor ''post to Slack when Stripe charges'' = Some POPULAR_APIS_stripe
   \<and> analyzeAPI sample_platform ''post to Slack when Stripe charges'' = Inr POPULAR_APIS_stripe"
proof -
  have a: "has_signature slack_signatures ''post to Slack when Stripe charges''
           \<and> has_signature stripe_signatures ''post to Slack when Stripe charges''"
    by code_simp
  then have h: "first_matching_vendor ''post to Slack when Stripe charges''
                = Some POPULAR_APIS_stripe"
    by (simp add: first_matching_vendor_def vendor_table_def)
  show ?thesis
    using a h analyzeAPI_vendor_precedence [OF h, of sample_platform] by simp
qed

section \<open>Bare URLs\<close>

text \<open>
  Claim C8. An input without vendor signature that is not classified as an
  OpenAPI document and parses as a URL gets the placeholder: name \<open>Custom API\<close>, the input
  as base URL, one GET endpoint at path \<open>/\<close> with no parameters and a single response
  with status 200, authentication of type \<open>apiKey\<close> with no location and no name, and the
  capabilities \<open>General API operations\<close>. The result depends on nothing but the input.
\<close>

theorem analyzeAPI_bare_url:
  assumes "\<not> has_signature stripe_signatures input"
    and "\<not> has_signature shopify_signatures input"
    and "\<not> has_signature slack_signatures input"
    and "\<not> truthy (isOpenAPISpec P input)"
    and "isURL P input"
  shows "\<exists>api e r. analyzeAPI P input = Inr api
           \<and> name api = JStr ''Custom API'' \<and> baseUrl api = JStr input
           \<and> endpoints api = [e] \<and> e_method e = GET \<and> path e = ''/'' \<and> parameters e = []
           \<and> responses e = [r] \<and> statusCode r = Num 200
           \<and> authentication api
               = \<lparr>auth_type = apiKey, auth_location = JUndefined, auth_name = JUndefined\<rparr>
           \<and> capabilities api = [''General API operations'']"
  using assms by (simp add: analyzeAPI_def detectPopularAPI_cases analyzeAPIFromURL_def)

theorem analyzeAPI_bare_url_witness:
  "\<not> has_signature stripe_signatures ''http://x''
   \<and> \<not> has_signature shopify_signatures ''http://x''
   \<and> \<not> has_signature slack_signatures ''http://x''
   \<and> \<not> truthy (isOpenAPISpec sample_platform ''http://x'')
   \<and> isURL sample_platform ''http://x''
   \<and> (\<exists>api e r. analyzeAPI sample_platform ''http://x'' = Inr api
           \<and> name api = JStr ''Custom API'' \<and> baseUrl api = JStr ''http://x''
           \<and> endpoints api = [e] \<and> e_method e = GET \<and> path e = ''/'' \<and> parameters e = []
           \<and> responses e = [r] \<and> statusCode r = Num 200
           \<and> authentication api
               = \<lparr>auth_type = apiKey, auth_location = JUndefined, auth_name = JUndefined\<rparr>
           \<and> capabilities api = [''General API operations''])"
proof -
  have a: "\<not> has_signature stripe_signatures ''http://x''" by code_simp
  have b: "\<not> has_signature shopify_signatures ''http://x''" by code_simp
  have c: "\<not> has_signature slack_signatures ''http://x''" by code_simp
  have d: "\<not> truthy (isOpenAPISpec sample_platform ''http://x'')" by code_simp
  have e: "isURL sample_platform ''http://x''" by code_simp
  show ?thesis
    using a b c d e analyzeAPI_bare_url [OF a b c d e] by simp
qed

section \<open>Capabilities\<close>

lemma set_first_occurrences: "set (first_occurrences xs) = set xs"
  by (induction xs rule: first_occurrences.induct) auto

lemma distinct_first_occurrences: "distinct (first_occurrences xs)"
  by (induction xs rule: first_occurrences.induct) (auto simp: set_first_occurrences)

lemma set_add_simps:
  "x \<in> set s \<Longrightarrow> set_add x s = s"
  "x \<notin> set s \<Longrightarrow> set_add x s = s @ [x]"
  by (simp_all add: set_add_def)

lemma foldl_set_add:
  "foldl (\<lambda>c x. set_add x c) acc xs = acc @ first_occurrences (filter (\<lambda>x. x \<notin> set acc) xs)"
proof (induction xs arbitrary: acc)
  case Nil
  then show ?case by simp
next
  case (Cons x xs)
  show ?case
  proof (cases "x \<in> set acc")
    case True
    then show ?thesis by (simp add: set_add_simps Cons.IH)
  next
    case False
    have "removeAll x (filter (\<lambda>y. y \<notin> set acc) xs)
          = filter (\<lambda>y. y \<notin> set (acc @ [x])) xs"
      by (induction xs) auto
    with False show ?thesis by (simp add: set_add_simps Cons.IH)
  qed
qed

lemma add_method_capability_eq:
  "add_method_capability m caps = set_add (method_capability m) caps"
  by (cases m) (simp_all add: add_method_capability_def)

lemma tags_loop_eq:
  "tags_loop ts caps =
     map_option (\<lambda>texts. foldl (\<lambda>c x. set_add x c) caps (map (\<lambda>t. ''Manage '' @ t) texts))
       (those (map ToString ts))"
proof (induction ts arbitrary: caps)
  case Nil
  then show ?case by simp
next
  case (Cons t ts)
  show ?case
  proof (cases "ToString t")
    case None
    then show ?thesis by simp
  next
    case (Some s)
    then show ?thesis
      by (cases "those (map ToString ts)") (simp_all add: Cons.IH)
  qed
qed

lemma capabilities_loop_eq:
  "capabilities_loop es caps =
     map_option (foldl (\<lambda>c x. set_add x c) caps) (added_capabilities es)"
proof (induction es arbitrary: caps)
  case Nil
  then show ?case by (simp add: added_capabilities_def)
next
  case (Cons e es)
  show ?case
  proof (cases "endpoint_capabilities e")
    case None
    then show ?thesis
      by (auto simp: added_capabilities_def endpoint_capabilities_def tag_texts_def tags_loop_eq
          split: jsval.splits)
  next
    case (Some cs)
    then obtain ts texts where ts: "tags e = JArr ts" "those (map ToString ts) = Some texts"
      "cs = map (\<lambda>t. ''Manage '' @ t) texts @ [method_capability (e_method e)]"
      by (auto simp: endpoint_capabilities_def tag_texts_def split: jsval.splits)
    show ?thesis
      using Some ts
      by (cases "those (map endpoint_capabilities es)")
        (simp_all add: added_capabilities_def tags_loop_eq add_method_capability_eq Cons.IH)
  qed
qed

lemma generateCapabilities_eq:
  "generateCapabilities es = map_option first_occurrences (added_capabilities es)"
  by (cases "added_capabilities es")
    (simp_all add: generateCapabilities_def capabilities_loop_eq foldl_set_add)

lemma those_ToString_strings: "those (map (ToString \<circ> JStr) ts) = Some ts"
  by (induction ts) simp_all

lemma endpoint_capabilities_strings:
  "tags e = JArr (map JStr ts) \<Longrightarrow>
   endpoint_capabilities e
     = Some (map (\<lambda>t. ''Manage '' @ t) ts @ [method_capability (e_method e)])"
  by (simp add: endpoint_capabilities_def tag_texts_def those_ToString_strings)

lemma added_capabilities_strings:
  "\<forall>e\<in>set es. tags e = JArr (map JStr (ts e)) \<Longrightarrow>
   added_capabilities es =
     Some (concat (map (\<lambda>e. map (\<lambda>t. ''Manage '' @ t) (ts e) @ [method_capability (e_method e)]) es))"
proof (induction es)
  case Nil
  then show ?case by (simp add: added_capabilities_def)
next
  case (Cons e es)
  then have e: "endpoint_capabilities e
      = Some (map (\<lambda>t. ''Manage '' @ t) (ts e) @ [method_capability (e_method e)])"
    by (simp add: endpoint_capabilities_strings)
  from Cons obtain z where z: "those (map endpoint_capabilities es) = Some z"
    "concat z = concat (map (\<lambda>e. map (\<lambda>t. ''Manage '' @ t) (ts e)
                   @ [method_capability (e_method e)]) es)"
    by (auto simp: added_capabilities_def)
  show ?case
    using e z by (simp add: added_capabilities_def)
qed

text \<open>
  Claim C7. The capabilities of an endpoint list are the strings \<open>Manage {tag}\<close> for each tag
  of each endpoint and, after the tags of an endpoint, the one string that belongs to its
  method (\<open>Retrieve data\<close> for GET, \<open>Create resources\<close> for POST, \<open>Update resources\<close> for PUT
  and PATCH, \<open>Delete resources\<close> for DELETE), deduplicated across the whole list in the
  order of first occurrence; the result has no duplicates. Where the tags of every
  endpoint are an array of strings, as the interface declares them, the function returns
  that list.
\<close>

theorem generateCapabilities_first_occurrences:
  "generateCapabilities es = map_option first_occurrences (added_capabilities es)
   \<and> (\<forall>caps. generateCapabilities es = Some caps \<longrightarrow> distinct caps)
   \<and> ((\<forall>e\<in>set es. tags e = JArr (map JStr (ts e))) \<longrightarrow>
        generateCapabilities es =
          Some (first_occurrences (concat (map (\<lambda>e.
            map (\<lambda>t. ''Manage '' @ t) (ts e) @ [method_capability (e_method e)]) es))))"
proof (intro conjI allI impI)
  show "generateCapabilities es = map_option first_occurrences (added_capabilities es)"
    by (rule generateCapabilities_eq)
next
  fix caps
  assume "generateCapabilities es = Some caps"
  then show "distinct caps"
    by (auto simp: generateCapabilities_eq distinct_first_occurrences)
next
  assume h: "\<forall>e\<in>set es. tags e = JArr (map JStr (ts e))"
  show "generateCapabilities es =
          Some (first_occurrences (concat (map (\<lambda>e.
            map (\<lambda>t. ''Manage '' @ t) (ts e) @ [method_capability (e_method e)]) es)))"
    by (simp only: generateCapabilities_eq added_capabilities_strings [OF h] option.map)
qed

theorem generateCapabilities_first_occurrences_witness:
  "list_all (\<lambda>e. tags e = JArr (map JStr [''orders'']))
     [sample_endpoint GET [''orders''], sample_endpoint POST [''orders'']]
   \<and> generateCapabilities [sample_endpoint GET [''orders''], sample_endpoint POST [''orders'']]
       = Some [''Manage orders'', ''Retrieve data'', ''Create resources'']
   \<and> distinct [''Manage orders'', ''Retrieve data'', ''Create resources'']"
proof -
  let ?es = "[sample_endpoint GET [''orders''], sample_endpoint POST [''orders'']]"
  have h: "\<forall>e\<in>set ?es. tags e = JArr (map JStr [''orders''])"
    by (simp add: sample_endpoint_def)
  have h': "list_all (\<lambda>e. tags e = JArr (map JStr [''orders''])) ?es"
    by (simp add: sample_endpoint_def)
  have "generateCapabilities ?es =
          Some (first_occurrences (concat (map (\<lambda>e.
            map (\<lambda>t. ''Manage '' @ t) [''orders''] @ [method_capability (e_method e)]) ?es)))"
    using generateCapabilities_first_occurrences [of ?es "\<lambda>e. [''orders'']"] h by blast
  then have r: "generateCapabilities ?es
                = Some [''Manage orders'', ''Retrieve data'', ''Create resources'']"
    by (simp add: sample_endpoint_def)
  show ?thesis
    using h' r by simp
qed

section \<open>Endpoints of a document\<close>

lemma method_name_cast:
  "m \<in> set supported_verbs \<Longrightarrow> method_name (as_http_method (toUpperCase m)) = toUpperCase m"
proof -
  have "method_name (as_http_method (toUpperCase ''get'')) = toUpperCase ''get''"
    "method_name (as_http_method (toUpperCase ''post'')) = toUpperCase ''post''"
    "method_name (as_http_method (toUpperCase ''put'')) = toUpperCase ''put''"
    "method_name (as_http_method (toUpperCase ''delete'')) = toUpperCase ''delete''"
    "method_name (as_http_method (toUpperCase ''patch'')) = toUpperCase ''patch''"
    by code_simp+
  then show "m \<in> set supported_verbs \<Longrightarrow> ?thesis"
    by (auto simp: supported_verbs_def)
qed

lemma parse_operation_key:
  "parse_operation pth mth methodObj = Some e \<Longrightarrow>
   path e = pth \<and> e_method e = as_http_method (toUpperCase mth)"
  by (auto simp: parse_operation_def split: bind_splits)

lemma methods_loop_keys:
  "methods_loop pth ents eps = Some res \<Longrightarrow>
   map endpoint_key res =
     map endpoint_key eps
     @ map (\<lambda>(m, methodObj). (pth, toUpperCase m))
         (filter (\<lambda>(m, methodObj). m \<in> set supported_verbs) ents)"
proof (induction ents arbitrary: eps)
  case Nil
  then show ?case by simp
next
  case (Cons ent ents)
  obtain m methodObj where ent: "ent = (m, methodObj)" by (cases ent)
  show ?case
  proof (cases "m \<in> set supported_verbs")
    case True
    with Cons.prems ent obtain e where e: "parse_operation pth m methodObj = Some e"
      and rest: "methods_loop pth ents (eps @ [e]) = Some res"
      by (auto simp: supported_verbs_def split: bind_splits)
    from parse_operation_key [OF e] True have "endpoint_key e = (pth, toUpperCase m)"
      by (simp add: endpoint_key_def method_name_cast)
    with Cons.IH [OF rest] True ent show ?thesis by simp
  next
    case False
    with Cons.prems ent have "methods_loop pth ents eps = Some res"
      by (simp add: supported_verbs_def)
    from Cons.IH [OF this] False ent show ?thesis by simp
  qed
qed

lemma paths_loop_keys:
  "paths_loop ents eps = Some res \<Longrightarrow>
   map endpoint_key res =
     map endpoint_key eps
     @ concat (map (\<lambda>(p, pathObj). map (\<lambda>(m, methodObj). (p, toUpperCase m))
         (filter (\<lambda>(m, methodObj). m \<in> set supported_verbs) (entries_of pathObj))) ents)"
proof (induction ents arbitrary: eps)
  case Nil
  then show ?case by simp
next
  case (Cons ent ents)
  obtain p pathObj where ent: "ent = (p, pathObj)" by (cases ent)
  with Cons.prems obtain entries es where
    entries: "Object_entries pathObj = Some entries"
    and es: "methods_loop p entries eps = Some es"
    and rest: "paths_loop ents es = Some res"
    by (auto split: bind_splits)
  from entries have "entries_of pathObj = entries" by (simp add: entries_of_def)
  with Cons.IH [OF rest] methods_loop_keys [OF es] ent show ?case by simp
qed

lemma supported_pairs:
  "map (\<lambda>(p, m). (p, toUpperCase m))
     (filter (\<lambda>(p, m). m \<in> set supported_verbs)
        (concat (map (\<lambda>(p, pathObj). map (\<lambda>(m, methodObj). (p, m)) (entries_of pathObj)) ents)))
   = concat (map (\<lambda>(p, pathObj). map (\<lambda>(m, methodObj). (p, toUpperCase m))
         (filter (\<lambda>(m, methodObj). m \<in> set supported_verbs) (entries_of pathObj))) ents)"
proof (induction ents)
  case Nil
  then show ?case by simp
next
  case (Cons ent ents)
  obtain p pathObj where ent: "ent = (p, pathObj)" by (cases ent)
  have "map (\<lambda>(p, m). (p, toUpperCase m))
          (filter (\<lambda>(p, m). m \<in> set supported_verbs) (map (\<lambda>(m, methodObj). (p, m)) xs))
        = map (\<lambda>(m, methodObj). (p, toUpperCase m))
            (filter (\<lambda>(m, methodObj). m \<in> set supported_verbs) xs)" for xs :: "(string \<times> jsval) list"
    by (induction xs) auto
  with Cons ent show ?case by simp
qed

lemma transform_parsed_endpoints:
  assumes "transform_parsed parsed = Some api"
  shows "map endpoint_key (endpoints api) =
           map (\<lambda>(p, m). (p, toUpperCase m))
             (filter (\<lambda>(p, m). m \<in> set supported_verbs) (path_method_pairs parsed))"
proof -
  from assms obtain paths entries where
    paths: "get_prop parsed ''paths'' = Some paths"
    and entries: "Object_entries (js_or paths (JObj [])) = Some entries"
    and loop: "paths_loop entries [] = Some (endpoints api)"
    by (auto simp: transform_parsed_def split: bind_splits)
  from paths have "opt_prop parsed ''paths'' = paths" by (simp add: opt_prop_def)
  with entries have "path_method_pairs parsed =
      concat (map (\<lambda>(p, pathObj). map (\<lambda>(m, methodObj). (p, m)) (entries_of pathObj)) entries)"
    by (simp add: path_method_pairs_def entries_of_def)
  with paths_loop_keys [OF loop] show ?thesis by (simp add: supported_pairs)
qed

section \<open>Request bodies\<close>

lemma get_prop_readable: "readable v \<Longrightarrow> get_prop v k = Some (opt_prop v k)"
  by (cases v) (simp_all add: readable_def opt_prop_def)

lemma opt_prop_defined: "opt_prop v k \<noteq> JUndefined \<Longrightarrow> \<exists>kvs. v = JObj kvs"
  by (cases v) (simp_all add: opt_prop_def)

lemma readable_JObj [simp]: "readable (JObj kvs)"
  by (simp add: readable_def)

lemma Object_entries_or_empty:
  "Object_entries (js_or v (JObj [])) = Some (entries_of (js_or v (JObj [])))"
  by (cases v) (simp_all add: js_or_def entries_of_def)

lemma required_properties_object:
  "required_properties (JObj schema) = Some (required_list (JObj schema))"
proof (cases "''required'' \<in> fst ` set schema")
  case True
  then show ?thesis
    by (simp add: required_properties_def required_list_def opt_prop_def)
next
  case False
  then have "map_of schema ''required'' = None"
    by (simp add: map_of_eq_None_iff)
  with False show ?thesis
    by (simp add: required_properties_def required_list_def opt_prop_def)
qed

lemma body_parameter_readable:
  "readable prp \<Longrightarrow>
   body_parameter req nm prp =
     Some \<lparr>p_name = JStr nm, p_type = js_or (opt_prop prp ''type'') (JStr ''string''),
           p_required = JBool (JStr nm \<in> set req),
           p_description = js_or (opt_prop prp ''description'') (JStr ''''),
           p_location = JStr ''body'', p_example = opt_prop prp ''example''\<rparr>"
  by (simp add: body_parameter_def get_prop_readable)

lemma properties_loop_readable:
  "\<forall>(nm, prp)\<in>set ents. readable prp \<Longrightarrow>
   properties_loop req ents params =
     Some (params @ map (\<lambda>(nm, prp).
       \<lparr>p_name = JStr nm, p_type = js_or (opt_prop prp ''type'') (JStr ''string''),
        p_required = JBool (JStr nm \<in> set req),
        p_description = js_or (opt_prop prp ''description'') (JStr ''''),
        p_location = JStr ''body'', p_example = opt_prop prp ''example''\<rparr>) ents)"
proof (induction ents arbitrary: params)
  case Nil
  then show ?case by simp
next
  case (Cons ent ents)
  obtain nm prp where ent: "ent = (nm, prp)" by (cases ent)
  with Cons.prems have "readable prp" and "\<forall>(nm, prp)\<in>set ents. readable prp"
    by simp_all
  with Cons.IH ent show ?case
    by (simp add: body_parameter_readable)
qed

lemma parse_request_body_schema:
  assumes "readable methodObj" and "json_body_schema methodObj = JObj schema"
  shows "parse_request_body methodObj params =
           properties_loop (required_list (JObj schema)) (declared_properties (JObj schema)) params"
proof -
  define rb where "rb = opt_prop methodObj ''requestBody''"
  define content where "content = opt_prop rb ''content''"
  define jc where "jc = opt_prop content ''application/json''"
  from assms(2) have s: "opt_prop jc ''schema'' = JObj schema"
    by (simp add: json_body_schema_def rb_def content_def jc_def)
  then obtain kvs where jc: "jc = JObj kvs"
    using opt_prop_defined [of jc "''schema''"] by auto
  then obtain kvs' where c: "content = JObj kvs'"
    using opt_prop_defined [of content "''application/json''"] by (auto simp: jc_def)
  have g1: "get_prop methodObj ''requestBody'' = Some rb"
    using assms(1) by (simp add: get_prop_readable rb_def)
  have g2: "get_prop content ''application/json'' = Some jc"
    using c by (simp add: jc_def opt_prop_def)
  have g3: "get_prop (JObj schema) ''properties'' = Some (opt_prop (JObj schema) ''properties'')"
    by (simp add: opt_prop_def)
  show ?thesis
    unfolding parse_request_body_def g1
    using c g2 s
    by (simp add: content_def [symmetric] required_properties_object g3
        Object_entries_or_empty declared_properties_def Let_def del: get_prop.simps)
qed

lemma parse_operation_parameters:
  assumes "parse_operation pth mth methodObj = Some e"
  obtains declared where "parse_parameters methodObj [] = Some declared"
    and "parse_request_body methodObj declared = Some (parameters e)"
  using assms by (auto simp: parse_operation_def split: bind_splits)

text \<open>
  Claim C4. For an operation whose \<open>application/json\<close> request body has a schema object,
  the transform appends to the declared parameters of the endpoint one parameter per
  property that the schema declares, in their order: its name is the name of the property, its location is
  \<open>body\<close>, its \<open>required\<close> flag is true if and only if the name is in the \<open>required\<close> list of
  the schema (no property is required when the list is missing), its type is the type of
  the property, or \<open>string\<close> when that is missing, and its description is the description
  of the property, or the empty string when that is missing. The schema
  \<open>{type: "object", properties: {"a": {type: "integer"}}, required: ["a"]}\<close> gives
  exactly one parameter, located in the body, named \<open>a\<close> and required.
\<close>

theorem parse_request_body_properties:
  assumes "readable methodObj"
    and "json_body_schema methodObj = JObj schema"
    and "\<forall>(nm, prp)\<in>set (declared_properties (JObj schema)). readable prp"
  shows "(\<exists>body. parse_request_body methodObj params = Some (params @ body)
          \<and> (\<forall>pth mth e. parse_operation pth mth methodObj = Some e \<longrightarrow>
                (\<exists>declared. parse_parameters methodObj [] = Some declared
                   \<and> parameters e = declared @ body))
          \<and> length body = length (declared_properties (JObj schema))
          \<and> (\<forall>i<length body.
                case declared_properties (JObj schema) ! i of (nm, prp) \<Rightarrow>
                  p_name (body ! i) = JStr nm
                  \<and> p_location (body ! i) = JStr ''body''
                  \<and> p_required (body ! i) = JBool (JStr nm \<in> set (required_list (JObj schema)))
                  \<and> p_type (body ! i)
                      = (if truthy (opt_prop prp ''type'') then opt_prop prp ''type''
                         else JStr ''string'')
                  \<and> p_description (body ! i)
                      = (if truthy (opt_prop prp ''description'')
                         then opt_prop prp ''description'' else JStr '''')
                  \<and> p_example (body ! i) = opt_prop prp ''example''))
         \<and> (opt_prop (JObj schema) ''required'' = JUndefined
              \<longrightarrow> required_list (JObj schema) = [])
         \<and> parse_request_body body_example_operation []
             = Some [\<lparr>p_name = JStr ''a'', p_type = JStr ''integer'', p_required = JBool True,
                      p_description = JStr '''', p_location = JStr ''body'',
                      p_example = JUndefined\<rparr>]"
proof (intro conjI)
  let ?props = "declared_properties (JObj schema)"
  let ?f = "\<lambda>(nm, prp).
       \<lparr>p_name = JStr nm, p_type = js_or (opt_prop prp ''type'') (JStr ''string''),
        p_required = JBool (JStr nm \<in> set (required_list (JObj schema))),
        p_description = js_or (opt_prop prp ''description'') (JStr ''''),
        p_location = JStr ''body'', p_example = opt_prop prp ''example''\<rparr>"
  have r: "parse_request_body methodObj ps = Some (ps @ map ?f ?props)" for ps
    using parse_request_body_schema [OF assms(1,2)] properties_loop_readable [OF assms(3)]
    by simp
  have op: "\<forall>pth mth e. parse_operation pth mth methodObj = Some e \<longrightarrow>
                (\<exists>declared. parse_parameters methodObj [] = Some declared
                   \<and> parameters e = declared @ map ?f ?props)"
  proof (intro allI impI)
    fix pth mth e
    assume "parse_operation pth mth methodObj = Some e"
    then obtain declared where d: "parse_parameters methodObj [] = Some declared"
      and b: "parse_request_body methodObj declared = Some (parameters e)"
      by (rule parse_operation_parameters)
    from b r [of declared] have "parameters e = declared @ map ?f ?props"
      by simp
    with d show "\<exists>declared. parse_parameters methodObj [] = Some declared
                   \<and> parameters e = declared @ map ?f ?props"
      by blast
  qed
  have "\<forall>i<length (map ?f ?props).
          case ?props ! i of (nm, prp) \<Rightarrow>
            p_name (map ?f ?props ! i) = JStr nm
            \<and> p_location (map ?f ?props ! i) = JStr ''body''
            \<and> p_required (map ?f ?props ! i) = JBool (JStr nm \<in> set (required_list (JObj schema)))
            \<and> p_type (map ?f ?props ! i)
                = (if truthy (opt_prop prp ''type'') then opt_prop prp ''type''
                   else JStr ''string'')
            \<and> p_description (map ?f ?props ! i)
                = (if truthy (opt_prop prp ''description'')
                   then opt_prop prp ''description'' else JStr '''')
            \<and> p_example (map ?f ?props ! i) = opt_prop prp ''example''"
    by (auto simp: js_or_def split: prod.splits)
  with r [of params] op
  show "\<exists>body. parse_request_body methodObj params = Some (params @ body)
          \<and> (\<forall>pth mth e. parse_operation pth mth methodObj = Some e \<longrightarrow>
                (\<exists>declared. parse_parameters methodObj [] = Some declared
                   \<and> parameters e = declared @ body))
          \<and> length body = length ?props
          \<and> (\<forall>i<length body.
                case ?props ! i of (nm, prp) \<Rightarrow>
                  p_name (body ! i) = JStr nm
                  \<and> p_location (body ! i) = JStr ''body''
                  \<and> p_required (body ! i) = JBool (JStr nm \<in> set (required_list (JObj schema)))
                  \<and> p_type (body ! i)
                      = (if truthy (opt_prop prp ''type'') then opt_prop prp ''type''
                         else JStr ''string'')
                  \<and> p_description (body ! i)
                      = (if truthy (opt_prop prp ''description'')
                         then opt_prop prp ''description'' else JStr '''')
                  \<and> p_example (body ! i) = opt_prop prp ''example'')"
    by (intro exI [of _ "map ?f ?props"] conjI) simp_all
  show "opt_prop (JObj schema) ''required'' = JUndefined \<longrightarrow> required_list (JObj schema) = []"
    by (simp add: required_list_def)
  show "parse_request_body body_example_operation []
             = Some [\<lparr>p_name = JStr ''a'', p_type = JStr ''integer'', p_required = JBool True,
                      p_description = JStr '''', p_location = JStr ''body'',
                      p_example = JUndefined\<rparr>]"
    by code_simp
qed

theorem parse_request_body_properties_witness:
  "readable sample_post
   \<and> json_body_schema sample_post = JObj sample_schema
   \<and> list_all (\<lambda>(nm, prp). readable prp) (declared_properties (JObj sample_schema))
   \<and> (\<exists>body. parse_request_body sample_post [] = Some body \<and> length body = 2
        \<and> p_name (body ! 0) = JStr ''a'' \<and> p_location (body ! 0) = JStr ''body''
        \<and> p_required (body ! 0) = JBool True \<and> p_type (body ! 0) = JStr ''integer''
        \<and> p_name (body ! 1) = JStr ''note'' \<and> p_location (body ! 1) = JStr ''body''
        \<and> p_required (body ! 1) = JBool False \<and> p_type (body ! 1) = JStr ''string''
        \<and> p_description (body ! 1) = JStr ''Free text'')"
proof -
  have a: "readable sample_post"
    by code_simp
  have b: "json_body_schema sample_post = JObj sample_schema"
    by code_simp
  have props: "declared_properties (JObj sample_schema)
      = [(''a'', JObj [(''type'', JStr ''integer'')]),
         (''note'', JObj [(''description'', JStr ''Free text'')])]"
    by code_simp
  have c: "\<forall>(nm, prp)\<in>set (declared_properties (JObj sample_schema)). readable prp"
    unfolding props by simp
  have c': "list_all (\<lambda>(nm, prp). readable prp) (declared_properties (JObj sample_schema))"
    unfolding props by simp
  have req: "required_list (JObj sample_schema) = [JStr ''a'']"
    by code_simp
  have o: "opt_prop (JObj [(''type'', JStr ''integer'')]) ''type'' = JStr ''integer''"
    "opt_prop (JObj [(''description'', JStr ''Free text'')]) ''type'' = JUndefined"
    "opt_prop (JObj [(''description'', JStr ''Free text'')]) ''description'' = JStr ''Free text''"
    by code_simp+
  from parse_request_body_properties [OF a b c, of "[]"]
  obtain body where body: "parse_request_body sample_post [] = Some ([] @ body)"
    and len: "length body = length (declared_properties (JObj sample_schema))"
    and each: "\<forall>i<length body.
                case declared_properties (JObj sample_schema) ! i of (nm, prp) \<Rightarrow>
                  p_name (body ! i) = JStr nm
                  \<and> p_location (body ! i) = JStr ''body''
                  \<and> p_required (body ! i)
                      = JBool (JStr nm \<in> set (required_list (JObj sample_schema)))
                  \<and> p_type (body ! i)
                      = (if truthy (opt_prop prp ''type'') then opt_prop prp ''type''
                         else JStr ''string'')
                  \<and> p_description (body ! i)
                      = (if truthy (opt_prop prp ''description'')
                         then opt_prop prp ''description'' else JStr '''')
                  \<and> p_example (body ! i) = opt_prop prp ''example''"
    by blast
  from len have l2: "length body = 2"
    by (simp add: props)
  from spec [OF each, of 0] l2 have e0: "p_name (body ! 0) = JStr ''a'' \<and> p_location (body ! 0) = JStr ''body''
        \<and> p_required (body ! 0) = JBool True \<and> p_type (body ! 0) = JStr ''integer''"
    by (simp add: props req o)
  from spec [OF each, of 1] l2 have e1: "p_name (body ! 1) = JStr ''note'' \<and> p_location (body ! 1) = JStr ''body''
        \<and> p_required (body ! 1) = JBool False \<and> p_type (body ! 1) = JStr ''string''
        \<and> p_description (body ! 1) = JStr ''Free text''"
    by (simp add: props req o)
  have "\<exists>body. parse_request_body sample_post [] = Some body \<and> length body = 2
        \<and> p_name (body ! 0) = JStr ''a'' \<and> p_location (body ! 0) = JStr ''body''
        \<and> p_required (body ! 0) = JBool True \<and> p_type (body ! 0) = JStr ''integer''
        \<and> p_name (body ! 1) = JStr ''note'' \<and> p_location (body ! 1) = JStr ''body''
        \<and> p_required (body ! 1) = JBool False \<and> p_type (body ! 1) = JStr ''string''
        \<and> p_description (body ! 1) = JStr ''Free text''"
    using body l2 e0 e1 by (intro exI [of _ body]) simp
  with a b c' show ?thesis
    by (intro conjI)
qed

section \<open>Responses\<close>

lemma digit_char:
  assumes "d < 10"
  shows "digit_of 10 (char_of (48 + d)) = Some d"
    and "\<not> is_space (char_of (48 + d))"
    and "char_of (48 + d) \<notin> {CHR ''-'', CHR ''+'', CHR ''x'', CHR ''X''}"
proof -
  from assms have "d \<in> {0, 1, 2, 3, 4, 5, 6, 7, 8, 9}" by auto
  then show "digit_of 10 (char_of (48 + d)) = Some d"
    by (elim insertE emptyE; hypsubst; code_simp)
  from \<open>d \<in> _\<close> show "\<not> is_space (char_of (48 + d))"
    by (elim insertE emptyE; hypsubst; code_simp)
  from \<open>d \<in> _\<close> show "char_of (48 + d) \<notin> {CHR ''-'', CHR ''+'', CHR ''x'', CHR ''X''}"
    by (elim insertE emptyE; hypsubst; code_simp)
qed

lemma decimal_chars: "c \<in> set (decimal n) \<Longrightarrow> \<exists>d::nat. d < 10 \<and> c = char_of (48 + d)"
proof (induction n rule: decimal.induct)
  case (1 n)
  show ?case
  proof (cases "n < 10")
    case True
    with "1.prems" show ?thesis by (auto simp: decimal.simps [of n])
  next
    case False
    with "1.prems" have "c \<in> set (decimal (n div 10)) \<or> c = char_of (48 + n mod 10)"
      by (auto simp: decimal.simps [of n])
    with "1.IH" False show ?thesis
      by (metis mod_less_divisor zero_less_numeral)
  qed
qed

lemma decimal_not_empty: "decimal n \<noteq> []"
  by (simp add: decimal.simps [of n])

lemma digits_value_snoc:
  "digits_value r (z @ [c]) = digits_value r z * r + the (digit_of r c)"
  by (simp add: digits_value_def)

lemma digits_value_decimal: "digits_value 10 (decimal n) = n"
proof (induction n rule: decimal.induct)
  case (1 n)
  show ?case
  proof (cases "n < 10")
    case True
    then show ?thesis
      by (simp add: decimal.simps [of n] digits_value_def digit_char(1))
  next
    case False
    with "1.IH" show ?thesis
      by (simp add: decimal.simps [of n] digits_value_snoc digit_char(1))
  qed
qed

lemma starts_with_Cons:
  "starts_with s (c # t) \<Longrightarrow> \<exists>s'. s = c # s' \<and> starts_with s' t"
  by (cases s) simp_all

lemma parseInt_decimal: "parseInt (decimal n) = Num (int n)"
proof -
  let ?s = "decimal n"
  have chars: "\<And>c. c \<in> set ?s \<Longrightarrow>
      digit_of 10 c \<noteq> None \<and> \<not> is_space c \<and> c \<notin> {CHR ''-'', CHR ''+'', CHR ''x'', CHR ''X''}"
    using decimal_chars digit_char by (metis option.distinct(1))
  obtain c s' where s: "?s = c # s'"
    using decimal_not_empty [of n] by (cases ?s) auto
  then have c: "c \<in> set ?s" by simp
  have s1: "dropWhile is_space ?s = ?s"
    using chars [OF c] s by simp
  have sign: "\<not> starts_with ?s ''-''" "\<not> starts_with ?s ''+''"
    using chars [OF c] s by auto
  have hex: "\<not> starts_with ?s ''0x''" "\<not> starts_with ?s ''0X''"
  proof -
    show "\<not> starts_with ?s ''0x''"
    proof
      assume "starts_with ?s ''0x''"
      then obtain t where "?s = CHR ''0'' # CHR ''x'' # t"
        by (metis starts_with_Cons)
      then have "CHR ''x'' \<in> set ?s" by simp
      with chars show False by blast
    qed
    show "\<not> starts_with ?s ''0X''"
    proof
      assume "starts_with ?s ''0X''"
      then obtain t where "?s = CHR ''0'' # CHR ''X'' # t"
        by (metis starts_with_Cons)
      then have "CHR ''X'' \<in> set ?s" by simp
      with chars show False by blast
    qed
  qed
  have z: "takeWhile (\<lambda>c. digit_of 10 c \<noteq> None) ?s = ?s"
    using chars by (simp add: takeWhile_eq_all_conv)
  show ?thesis
    by (simp add: parseInt_def Let_def s1 sign hex z decimal_not_empty digits_value_decimal
        del: not_None_eq)
qed

lemma parse_response_readable:
  "readable response \<Longrightarrow>
   parse_response code response =
     Some \<lparr>statusCode = parseInt code,
           r_description = js_or (opt_prop response ''description'') (JStr ''''),
           r_example = json_example response\<rparr>"
  by (simp add: parse_response_def get_prop_readable json_example_def)

lemma responses_loop_readable:
  "\<forall>(code, response)\<in>set ents. readable response \<Longrightarrow>
   responses_loop ents resps =
     Some (resps @ map (\<lambda>(code, response).
       \<lparr>statusCode = parseInt code,
        r_description = js_or (opt_prop response ''description'') (JStr ''''),
        r_example = json_example response\<rparr>) ents)"
proof (induction ents arbitrary: resps)
  case Nil
  then show ?case by simp
next
  case (Cons ent ents)
  obtain code response where ent: "ent = (code, response)" by (cases ent)
  with Cons.prems have "readable response" and "\<forall>(code, response)\<in>set ents. readable response"
    by simp_all
  with Cons.IH ent show ?case
    by (simp add: parse_response_readable)
qed

lemma parse_responses_readable:
  "readable methodObj \<Longrightarrow>
   parse_responses methodObj = responses_loop (declared_responses methodObj) []"
  by (simp add: parse_responses_def get_prop_readable Object_entries_or_empty
      declared_responses_def)

lemma parse_operation_responses:
  "parse_operation pth mth methodObj = Some e \<Longrightarrow> parse_responses methodObj = Some (responses e)"
  by (auto simp: parse_operation_def split: bind_splits)

text \<open>
  Claim C5. For an operation, each response that its \<open>responses\<close> mapping declares becomes
  exactly one response of the endpoint: there are as many as declared, and the one of a
  declared pair has as status code the result of \<open>parseInt\<close> on the key, which for the
  decimal numeral of a number is that number, as description the declared description,
  or the empty string when that is missing, and as example the \<open>example\<close> of the
  \<open>application/json\<close> entry of the \<open>content\<close> of the response, absent when any of these is
  absent.
\<close>

theorem parse_responses_declared:
  assumes "readable methodObj"
    and "\<forall>(code, response)\<in>set (declared_responses methodObj). readable response"
  shows "(\<exists>resps. parse_responses methodObj = Some resps
          \<and> (\<forall>pth mth e. parse_operation pth mth methodObj = Some e \<longrightarrow> responses e = resps)
          \<and> length resps = length (declared_responses methodObj)
          \<and> (\<forall>i<length resps.
                case declared_responses methodObj ! i of (code, response) \<Rightarrow>
                  statusCode (resps ! i) = parseInt code
                  \<and> r_description (resps ! i)
                      = (if truthy (opt_prop response ''description'')
                         then opt_prop response ''description'' else JStr '''')
                  \<and> r_example (resps ! i) = json_example response))
         \<and> (\<forall>n. parseInt (decimal n) = Num (int n))"
proof (intro conjI allI)
  let ?ds = "declared_responses methodObj"
  let ?f = "\<lambda>(code, response).
       \<lparr>statusCode = parseInt code,
        r_description = js_or (opt_prop response ''description'') (JStr ''''),
        r_example = json_example response\<rparr>"
  have r: "parse_responses methodObj = Some (map ?f ?ds)"
    using parse_responses_readable [OF assms(1)] responses_loop_readable [OF assms(2), of "[]"]
    by simp
  have op: "\<forall>pth mth e. parse_operation pth mth methodObj = Some e
              \<longrightarrow> responses e = map ?f ?ds"
    using r parse_operation_responses by fastforce
  have each: "\<forall>i<length (map ?f ?ds).
                case ?ds ! i of (code, response) \<Rightarrow>
                  statusCode (map ?f ?ds ! i) = parseInt code
                  \<and> r_description (map ?f ?ds ! i)
                      = (if truthy (opt_prop response ''description'')
                         then opt_prop response ''description'' else JStr '''')
                  \<and> r_example (map ?f ?ds ! i) = json_example response"
    by (auto simp: js_or_def split: prod.splits)
  show "\<exists>resps. parse_responses methodObj = Some resps
          \<and> (\<forall>pth mth e. parse_operation pth mth methodObj = Some e \<longrightarrow> responses e = resps)
          \<and> length resps = length ?ds
          \<and> (\<forall>i<length resps.
                case ?ds ! i of (code, response) \<Rightarrow>
                  statusCode (resps ! i) = parseInt code
                  \<and> r_description (resps ! i)
                      = (if truthy (opt_prop response ''description'')
                         then opt_prop response ''description'' else JStr '''')
                  \<and> r_example (resps ! i) = json_example response)"
    using r op each by (intro exI [of _ "map ?f ?ds"] conjI) simp_all
next
  fix n
  show "parseInt (decimal n) = Num (int n)"
    by (rule parseInt_decimal)
qed

theorem parse_responses_declared_witness:
  "readable sample_get
   \<and> list_all (\<lambda>(code, response). readable response) (declared_responses sample_get)
   \<and> (\<exists>resps. parse_responses sample_get = Some resps \<and> length resps = 2
        \<and> statusCode (resps ! 0) = Num 200 \<and> r_description (resps ! 0) = JStr ''OK''
        \<and> r_example (resps ! 0) = JObj [(''orders'', JArr [])]
        \<and> statusCode (resps ! 1) = Num 404 \<and> r_description (resps ! 1) = JStr ''''
        \<and> r_example (resps ! 1) = JUndefined)"
proof -
  let ?ok = "JObj [(''description'', JStr ''OK''),
             (''content'', JObj [(''application/json'',
                JObj [(''example'', JObj [(''orders'', JArr [])])])])]"
  have a: "readable sample_get"
    by code_simp
  have ds: "declared_responses sample_get = [(''200'', ?ok), (''404'', JObj [])]"
    by code_simp
  have b: "\<forall>(code, response)\<in>set (declared_responses sample_get). readable response"
    unfolding ds by simp
  have b': "list_all (\<lambda>(code, response). readable response) (declared_responses sample_get)"
    unfolding ds by simp
  have v: "parseInt ''200'' = Num 200" "parseInt ''404'' = Num 404"
    "opt_prop ?ok ''description'' = JStr ''OK''" "json_example ?ok = JObj [(''orders'', JArr [])]"
    "opt_prop (JObj []) ''description'' = JUndefined" "json_example (JObj []) = JUndefined"
    by code_simp+
  from parse_responses_declared [OF a b]
  obtain resps where r: "parse_responses sample_get = Some resps"
    and len: "length resps = length (declared_responses sample_get)"
    and each: "\<forall>i<length resps.
                case declared_responses sample_get ! i of (code, response) \<Rightarrow>
                  statusCode (resps ! i) = parseInt code
                  \<and> r_description (resps ! i)
                      = (if truthy (opt_prop response ''description'')
                         then opt_prop response ''description'' else JStr '''')
                  \<and> r_example (resps ! i) = json_example response"
    by blast
  from len have l2: "length resps = 2"
    by (simp add: ds)
  from spec [OF each, of 0] l2 have e0: "statusCode (resps ! 0) = Num 200
        \<and> r_description (resps ! 0) = JStr ''OK''
        \<and> r_example (resps ! 0) = JObj [(''orders'', JArr [])]"
    by (simp add: ds v)
  from spec [OF each, of 1] l2 have e1: "statusCode (resps ! 1) = Num 404
        \<and> r_description (resps ! 1) = JStr '''' \<and> r_example (resps ! 1) = JUndefined"
    by (simp add: ds v)
  have "\<exists>resps. parse_responses sample_get = Some resps \<and> length resps = 2
        \<and> statusCode (resps ! 0) = Num 200 \<and> r_description (resps ! 0) = JStr ''OK''
        \<and> r_example (resps ! 0) = JObj [(''orders'', JArr [])]
        \<and> statusCode (resps ! 1) = Num 404 \<and> r_description (resps ! 1) = JStr ''''
        \<and> r_example (resps ! 1) = JUndefined"
    using r l2 e0 e1 by (intro exI [of _ resps]) simp
  with a b' show ?thesis
    by (intro conjI)
qed

section \<open>Authentication\<close>

lemma Object_values_truthy:
  "truthy v \<Longrightarrow> Object_values v = Some (map snd (entries_of v))"
  by (cases v) (simp_all add: Object_values_def entries_of_def)

lemma auth_of_scheme_undefined: "auth_of_scheme JUndefined = default_authentication"
  by (simp add: auth_of_scheme_def opt_prop_def)

lemma first_scheme_auth:
  "(if opt_prop s ''type'' = JStr ''http'' \<and> opt_prop s ''scheme'' = JStr ''bearer''
    then Some \<lparr>auth_type = bearer, auth_location = JUndefined, auth_name = JUndefined\<rparr>
    else if opt_prop s ''type'' = JStr ''apiKey''
    then do {
      loc \<leftarrow> get_prop s ''in'';
      nm \<leftarrow> get_prop s ''name'';
      Some \<lparr>auth_type = apiKey, auth_location = loc, auth_name = nm\<rparr>
    }
    else Some \<lparr>auth_type = apiKey, auth_location = JUndefined, auth_name = JUndefined\<rparr>)
   = Some (auth_of_scheme s)"
proof (cases "opt_prop s ''type'' = JStr ''apiKey''")
  case True
  then obtain kvs where "s = JObj kvs"
    using opt_prop_defined [of s "''type''"] by auto
  then have "readable s" by simp
  with True show ?thesis
    by (simp add: auth_of_scheme_def get_prop_readable)
next
  case False
  then show ?thesis
    by (simp add: auth_of_scheme_def default_authentication_def)
qed

lemma parseAuthentication_eq:
  assumes "readable spec"
  shows "parseAuthentication spec =
           Some (if truthy (security_schemes spec)
                 then first_declared (entries_of (security_schemes spec))
                 else default_authentication)"
proof (cases "truthy (security_schemes spec)")
  case False
  with assms show ?thesis
    by (simp add: parseAuthentication_def get_prop_readable security_schemes_def
        default_authentication_def)
next
  case True
  let ?ss = "security_schemes spec"
  let ?first = "case map snd (entries_of ?ss) of [] \<Rightarrow> JUndefined | v # _ \<Rightarrow> v"
  have f: "first_declared (entries_of ?ss) = auth_of_scheme ?first"
    by (cases "entries_of ?ss")
      (auto simp: first_declared_def auth_of_scheme_undefined split: prod.splits)
  have "parseAuthentication spec = Some (auth_of_scheme ?first)"
    using assms True first_scheme_auth [of ?first]
    by (simp add: parseAuthentication_def get_prop_readable security_schemes_def [symmetric]
        Object_values_truthy Let_def)
  with True f show ?thesis by simp
qed

lemma create_property_new:
  "k \<notin> fst ` set kvs \<Longrightarrow> create_property kvs k v = kvs @ [(k, v)]"
  by (induction kvs) auto

lemma foldl_create_property_distinct:
  "distinct (map fst (acc @ ms)) \<Longrightarrow>
   foldl (\<lambda>acc (k, v). create_property acc k v) acc ms = acc @ ms"
proof (induction ms arbitrary: acc)
  case Nil
  then show ?case by simp
next
  case (Cons m ms)
  obtain k v where m: "m = (k, v)" by (cases m)
  with Cons.prems have new: "k \<notin> fst ` set acc"
    by auto
  from Cons.prems m have "distinct (map fst ((acc @ [(k, v)]) @ ms))"
    by simp
  from Cons.IH [OF this] new m show ?case
    by (simp add: create_property_new)
qed

lemma own_property_order_names:
  assumes "\<forall>k\<in>set (map fst kvs). \<not> is_array_index k"
  shows "own_property_order kvs = kvs"
proof -
  from assms have "filter index_named kvs = []"
    by (auto simp: filter_empty_conv index_named_def)
  moreover from assms have "filter other_named kvs = kvs"
    by (auto simp: filter_id_conv other_named_def)
  ultimately show ?thesis
    by (simp add: own_property_order_def)
qed

lemma json_object_names:
  "distinct (map fst members) \<Longrightarrow> \<forall>k\<in>set (map fst members). \<not> is_array_index k \<Longrightarrow>
   json_object members = JObj members"
  using foldl_create_property_distinct [of "[]" members]
  by (simp add: json_object_def own_property_order_names)

text \<open>
  Claim C6, as amended. The authentication of a document is determined by the first
  security scheme of \<open>components.securitySchemes\<close> in the order in which the parsed object
  enumerates its properties: an HTTP scheme with scheme \<open>bearer\<close> gives type \<open>bearer\<close>, an
  \<open>apiKey\<close> scheme gives type \<open>apiKey\<close> with the \<open>in\<close> and \<open>name\<close> of the scheme as location
  and name, and any other scheme, an object without schemes and a document without
  security schemes give type \<open>apiKey\<close> with no location and no name. That order is the
  order of declaration in the text where the names of the schemes are distinct and none
  of them is an array index.
\<close>

theorem parseAuthentication_first_scheme:
  assumes "readable spec"
  shows "parseAuthentication spec =
           Some (if truthy (security_schemes spec)
                 then first_declared (entries_of (security_schemes spec))
                 else default_authentication)
         \<and> (security_schemes spec = json_object members \<and> distinct (map fst members)
              \<and> (\<forall>k\<in>set (map fst members). \<not> is_array_index k)
              \<longrightarrow> parseAuthentication spec = Some (first_declared members))"
proof (intro conjI impI)
  show "parseAuthentication spec =
           Some (if truthy (security_schemes spec)
                 then first_declared (entries_of (security_schemes spec))
                 else default_authentication)"
    by (rule parseAuthentication_eq [OF assms])
next
  assume a: "security_schemes spec = json_object members \<and> distinct (map fst members)
              \<and> (\<forall>k\<in>set (map fst members). \<not> is_array_index k)"
  then have "security_schemes spec = JObj members"
    by (simp add: json_object_names)
  then show "parseAuthentication spec = Some (first_declared members)"
    by (simp add: parseAuthentication_eq [OF assms] entries_of_def)
qed

theorem parseAuthentication_first_scheme_witness:
  "readable sample_document
   \<and> security_schemes sample_document = json_object sample_schemes
   \<and> distinct (map fst sample_schemes)
   \<and> list_all (\<lambda>k. \<not> is_array_index k) (map fst sample_schemes)
   \<and> parseAuthentication sample_document
       = Some \<lparr>auth_type = apiKey, auth_location = JStr ''header'',
               auth_name = JStr ''X-API-Key''\<rparr>"
proof -
  have a: "readable sample_document"
    by code_simp
  have b: "security_schemes sample_document = json_object sample_schemes"
    by code_simp
  have c: "distinct (map fst sample_schemes)"
    by code_simp
  have d: "\<forall>k\<in>set (map fst sample_schemes). \<not> is_array_index k"
    by code_simp
  have d': "list_all (\<lambda>k. \<not> is_array_index k) (map fst sample_schemes)"
    by code_simp
  have e: "first_declared sample_schemes
      = \<lparr>auth_type = apiKey, auth_location = JStr ''header'', auth_name = JStr ''X-API-Key''\<rparr>"
    by code_simp
  from parseAuthentication_first_scheme [OF a, of sample_schemes] b c d
  have "parseAuthentication sample_document = Some (first_declared sample_schemes)"
    by blast
  with a b c d' e show ?thesis
    by simp
qed

text \<open>
  The claim as it is written fails where a scheme is named by an array index: of the
  schemes \<open>primary\<close> (an API key) and \<open>2\<close> (HTTP bearer), declared in this order, the parsed
  object enumerates \<open>2\<close> first, and the authentication is \<open>bearer\<close>.
\<close>

theorem parseAuthentication_first_scheme_counterexample:
  "security_schemes index_named_document = json_object index_named_schemes
   \<and> first_declared index_named_schemes
       = \<lparr>auth_type = apiKey, auth_location = JStr ''header'', auth_name = JStr ''X-API-Key''\<rparr>
   \<and> parseAuthentication index_named_document
       = Some \<lparr>auth_type = bearer, auth_location = JUndefined, auth_name = JUndefined\<rparr>"
  by code_simp

section \<open>The natural-language description\<close>

lemma first_occurrences_snoc:
  "first_occurrences (xs @ [y]) =
     (if y \<in> set xs then first_occurrences xs else first_occurrences xs @ [y])"
proof (induction xs rule: first_occurrences.induct)
  case 1
  then show ?case by simp
next
  case (2 x xs)
  show ?case
  proof (cases "x = y")
    case True
    then show ?thesis by simp
  next
    case False
    then have "removeAll x (xs @ [y]) = removeAll x xs @ [y]" by simp
    with 2 False show ?thesis by simp
  qed
qed

lemma count_method_map:
  "distinct ks \<Longrightarrow>
   count_method (map (\<lambda>k. (k, f k)) ks) m =
     (if m \<in> set ks then map (\<lambda>k. (k, if k = m then f k + 1 else f k)) ks
      else map (\<lambda>k. (k, f k)) ks @ [(m, 1)])"
  by (induction ks) auto

lemma count_method_tally: "count_method (tally ms) m = tally (ms @ [m])"
proof (cases "m \<in> set ms")
  case True
  then show ?thesis
    by (simp add: tally_def count_method_map distinct_first_occurrences set_first_occurrences
        first_occurrences_snoc)
next
  case False
  then have "map (\<lambda>k. (k, count_list ms k)) (first_occurrences ms)
             = map (\<lambda>k. (k, count_list (ms @ [m]) k)) (first_occurrences ms)"
    by (auto simp: set_first_occurrences)
  with False show ?thesis
    by (simp add: tally_def count_method_map distinct_first_occurrences set_first_occurrences
        first_occurrences_snoc)
qed

lemma foldl_count_method:
  "foldl count_method (tally ps) ms = tally (ps @ ms)"
  by (induction ms arbitrary: ps) (simp_all add: count_method_tally)

lemma count_list_map_method:
  "count_list (map e_method es) m = length (filter (\<lambda>e. e_method e = m) es)"
  by (induction es) auto

lemma method_breakdown_tally: "method_breakdown es = tally (map e_method es)"
  by (simp add: method_breakdown_def tally_def count_list_map_method)

lemma method_counts_breakdown: "method_counts es = method_breakdown es"
proof -
  have "method_counts es = foldl count_method [] (map e_method es)"
    by (simp add: method_counts_def foldl_map)
  also have "\<dots> = tally (map e_method es)"
    using foldl_count_method [of "[]" "map e_method es"] by (simp add: tally_def)
  finally show ?thesis by (simp add: method_breakdown_tally)
qed

lemma operation_text_noun:
  "0 < c \<Longrightarrow>
   operation_text (m, c) = decimal c @ '' '' @ method_name m @ '' '' @ endpoint_noun c"
  by (simp add: operation_text_def endpoint_noun_def)

lemma tally_positive:
  assumes "(m, c) \<in> set (tally ms)"
  shows "0 < c"
proof -
  from assms have "m \<in> set ms" and c: "c = count_list ms m"
    by (auto simp: tally_def set_first_occurrences)
  then have "count_list ms m \<noteq> 0"
    by (simp add: count_list_0_iff)
  with c show ?thesis by simp
qed

lemma operations_breakdown_text:
  "join '', '' (map operation_text (method_breakdown es)) = breakdown_text (method_breakdown es)"
proof -
  have "map operation_text (method_breakdown es)
        = map (\<lambda>(m, count). decimal count @ '' '' @ method_name m @ '' '' @ endpoint_noun count)
            (method_breakdown es)"
    using tally_positive [of _ _ "map e_method es"]
    by (intro map_cong refl) (auto simp: method_breakdown_tally operation_text_noun)
  then show ?thesis
    by (simp only: breakdown_text_def)
qed

lemma starts_with_append: "starts_with (t @ b) t"
  by (induction t) simp_all

lemma str_includes_append: "str_includes (a @ t @ b) t"
proof (induction a)
  case Nil
  show ?case
    by (cases "t @ b") (use starts_with_append [of t b] in auto)
next
  case (Cons c a)
  then show ?case by simp
qed

lemma description_text:
  "generateNaturalLanguageDescription
     \<lparr>name = JStr n, baseUrl = b, description = JStr d, endpoints = es,
      authentication = a, capabilities = cs\<rparr>
   = Some (n @ '' is '' @ d @ ''. ''
       @ ''It provides '' @ decimal (length cs) @ '' main capabilities: ''
       @ join '', '' cs @ ''. ''
       @ ''The API has '' @ decimal (length es) @ '' endpoints available for integration. ''
       @ ''Available operations include: ''
       @ breakdown_text (method_breakdown es) @ ''.'')"
  by (simp add: generateNaturalLanguageDescription_def method_counts_breakdown
      operations_breakdown_text)

lemma breakdown_two_get_one_post:
  assumes "map e_method es = [GET, GET, POST] \<or> map e_method es = [GET, POST, GET]"
  shows "breakdown_text (method_breakdown es) = ''2 GET endpoints, 1 POST endpoint''"
proof -
  have "breakdown_text (tally [GET, GET, POST]) = ''2 GET endpoints, 1 POST endpoint''"
    "breakdown_text (tally [GET, POST, GET]) = ''2 GET endpoints, 1 POST endpoint''"
    by code_simp+
  with assms show ?thesis
    by (auto simp: method_breakdown_tally)
qed

text \<open>
  Claim C9, as amended. For every API whose name and description are strings, as the
  interface declares them, \<open>generateNaturalLanguageDescription\<close> returns a string: the name,
  the description, the number of capabilities and their list, the number of endpoints,
  and one group per method in the order of first occurrence, each with its number of
  endpoints and the noun \<open>endpoint\<close> for one and \<open>endpoints\<close> for more than one. For an API
  with two GET endpoints and one POST endpoint whose first endpoint is a GET, the string
  includes \<open>2 GET endpoints, 1 POST endpoint\<close>.
\<close>

theorem description_format:
  "generateNaturalLanguageDescription
     \<lparr>name = JStr n, baseUrl = b, description = JStr d, endpoints = es,
      authentication = a, capabilities = cs\<rparr>
   = Some (n @ '' is '' @ d @ ''. ''
       @ ''It provides '' @ decimal (length cs) @ '' main capabilities: ''
       @ join '', '' cs @ ''. ''
       @ ''The API has '' @ decimal (length es) @ '' endpoints available for integration. ''
       @ ''Available operations include: ''
       @ breakdown_text (method_breakdown es) @ ''.'')
   \<and> endpoint_noun 1 = ''endpoint''
   \<and> (\<forall>c>1. endpoint_noun c = ''endpoints'')
   \<and> (map e_method es = [GET, GET, POST] \<or> map e_method es = [GET, POST, GET] \<longrightarrow>
        (\<exists>out. generateNaturalLanguageDescription
                 \<lparr>name = JStr n, baseUrl = b, description = JStr d, endpoints = es,
                  authentication = a, capabilities = cs\<rparr> = Some out
           \<and> str_includes out ''2 GET endpoints, 1 POST endpoint''))"
proof (intro conjI impI)
  show "generateNaturalLanguageDescription
     \<lparr>name = JStr n, baseUrl = b, description = JStr d, endpoints = es,
      authentication = a, capabilities = cs\<rparr>
   = Some (n @ '' is '' @ d @ ''. ''
       @ ''It provides '' @ decimal (length cs) @ '' main capabilities: ''
       @ join '', '' cs @ ''. ''
       @ ''The API has '' @ decimal (length es) @ '' endpoints available for integration. ''
       @ ''Available operations include: ''
       @ breakdown_text (method_breakdown es) @ ''.'')"
    by (rule description_text)
  show "endpoint_noun 1 = ''endpoint''"
    by (simp add: endpoint_noun_def)
  show "\<forall>c>1. endpoint_noun c = ''endpoints''"
    by (simp add: endpoint_noun_def)
next
  assume m: "map e_method es = [GET, GET, POST] \<or> map e_method es = [GET, POST, GET]"
  let ?pre = "n @ '' is '' @ d @ ''. ''
       @ ''It provides '' @ decimal (length cs) @ '' main capabilities: ''
       @ join '', '' cs @ ''. ''
       @ ''The API has '' @ decimal (length es) @ '' endpoints available for integration. ''
       @ ''Available operations include: ''"
  have "generateNaturalLanguageDescription
     \<lparr>name = JStr n, baseUrl = b, description = JStr d, endpoints = es,
      authentication = a, capabilities = cs\<rparr>
     = Some (?pre @ ''2 GET endpoints, 1 POST endpoint'' @ ''.'')"
    by (simp only: description_text breakdown_two_get_one_post [OF m] append_assoc)
  moreover have "str_includes (?pre @ ''2 GET endpoints, 1 POST endpoint'' @ ''.'')
      ''2 GET endpoints, 1 POST endpoint''"
    by (rule str_includes_append)
  ultimately show "\<exists>out. generateNaturalLanguageDescription
                 \<lparr>name = JStr n, baseUrl = b, description = JStr d, endpoints = es,
                  authentication = a, capabilities = cs\<rparr> = Some out
           \<and> str_includes out ''2 GET endpoints, 1 POST endpoint''"
    by blast
qed

theorem description_format_witness:
  "(map e_method get_first_endpoints = [GET, GET, POST]
      \<or> map e_method get_first_endpoints = [GET, POST, GET])
   \<and> (\<exists>out. generateNaturalLanguageDescription (sample_api get_first_endpoints) = Some out
        \<and> str_includes out ''2 GET endpoints, 1 POST endpoint'')
   \<and> (1::nat) < 2 \<and> endpoint_noun 2 = ''endpoints''"
proof -
  have m: "map e_method get_first_endpoints = [GET, GET, POST]
      \<or> map e_method get_first_endpoints = [GET, POST, GET]"
    by code_simp
  note t = description_format [of "''Orders API''" "JStr ''https://api.example.org/v1''"
      "''Order management''" get_first_endpoints
      "\<lparr>auth_type = bearer, auth_location = JUndefined, auth_name = JUndefined\<rparr>"
      "[''Manage orders'', ''Retrieve data'', ''Create resources'']"]
  from t m have "\<exists>out. generateNaturalLanguageDescription (sample_api get_first_endpoints) = Some out
        \<and> str_includes out ''2 GET endpoints, 1 POST endpoint''"
    unfolding sample_api_def by (elim conjE) (erule (1) impE)
  moreover from t have "endpoint_noun 2 = ''endpoints''"
    by simp
  ultimately show ?thesis
    using m by simp
qed

text \<open>
  The claim as it is written fails on its example where the POST endpoint comes first:
  the groups follow the order of first occurrence, and the string ends in
  \<open>1 POST endpoint, 2 GET endpoints.\<close>
\<close>

theorem description_format_counterexample:
  "map e_method (endpoints (sample_api post_first_endpoints)) = [POST, GET, GET]
   \<and> generateNaturalLanguageDescription (sample_api post_first_endpoints)
       = Some ''Orders API is Order management. It provides 3 main capabilities: Manage orders, Retrieve data, Create resources. The API has 3 endpoints available for integration. Available operations include: 1 POST endpoint, 2 GET endpoints.''
   \<and> \<not> str_includes ''Orders API is Order management. It provides 3 main capabilities: Manage orders, Retrieve data, Create resources. The API has 3 endpoints available for integration. Available operations include: 1 POST endpoint, 2 GET endpoints.''
         ''2 GET endpoints, 1 POST endpoint''"
  by code_simp

section \<open>The transform on documents of the declared shape\<close>

lemma is_object_readable: "is_object v \<Longrightarrow> readable v"
  by (cases v) (simp_all add: is_object_def)

lemma string_array:
  "array_of is_string v \<Longrightarrow> \<exists>ts. v = JArr (map JStr ts)"
proof (cases v)
  case (JArr xs)
  assume "array_of is_string v"
  with JArr have "list_all is_string xs" by (simp add: array_of_def)
  then have "\<exists>ts. xs = map JStr ts"
  proof (induction xs)
    case Nil
    then show ?case by simp
  next
    case (Cons x xs)
    then obtain ts where "xs = map JStr ts" by auto
    moreover from Cons.prems obtain s where "x = JStr s"
      by (cases x) (simp_all add: is_string_def)
    ultimately have "x # xs = map JStr (s # ts)" by simp
    then show ?case by (rule exI)
  qed
  with JArr show ?thesis by simp
qed (simp_all add: array_of_def)

lemma declared_parameter_readable: "readable param \<Longrightarrow> declared_parameter param \<noteq> None"
  by (simp add: declared_parameter_def get_prop_readable)

lemma parameters_loop_readable:
  "list_all is_object xs \<Longrightarrow> parameters_loop xs params \<noteq> None"
proof (induction xs arbitrary: params)
  case Nil
  then show ?case by simp
next
  case (Cons x xs)
  then obtain p where "declared_parameter x = Some p"
    using declared_parameter_readable [of x] is_object_readable [of x] by auto
  with Cons show ?case by simp
qed

lemma parse_parameters_shaped:
  assumes "is_object methodObj"
    and "absent_or (array_of is_object) (opt_prop methodObj ''parameters'')"
  shows "parse_parameters methodObj params \<noteq> None"
proof (cases "opt_prop methodObj ''parameters''")
  case (JArr xs)
  with assms(2) have "list_all is_object xs"
    by (simp add: absent_or_def array_of_def)
  with JArr assms(1) show ?thesis
    by (simp add: parse_parameters_def get_prop_readable is_object_readable
        parameters_loop_readable)
qed (use assms in \<open>simp_all add: parse_parameters_def get_prop_readable is_object_readable
      absent_or_def array_of_def\<close>)

lemma parse_request_body_absent:
  assumes "readable methodObj" and "json_body_schema methodObj = JUndefined"
  shows "parse_request_body methodObj params = Some params"
proof -
  define content where "content = opt_prop (opt_prop methodObj ''requestBody'') ''content''"
  have g: "get_prop methodObj ''requestBody'' = Some (opt_prop methodObj ''requestBody'')"
    using assms(1) by (rule get_prop_readable)
  show ?thesis
  proof (cases "truthy content")
    case False
    then show ?thesis
      by (simp add: parse_request_body_def g content_def)
  next
    case True
    then have "readable content"
      by (cases content) (simp_all add: readable_def)
    then have "get_prop content ''application/json'' = Some (opt_prop content ''application/json'')"
      by (rule get_prop_readable)
    with True assms(2) show ?thesis
      by (simp add: parse_request_body_def g content_def [symmetric] json_body_schema_def)
  qed
qed

lemma parse_request_body_shaped:
  assumes "is_object methodObj" and "absent_or shaped_schema (json_body_schema methodObj)"
  shows "parse_request_body methodObj params \<noteq> None"
proof (cases "json_body_schema methodObj = JUndefined")
  case True
  with assms(1) show ?thesis
    by (simp add: parse_request_body_absent is_object_readable)
next
  case False
  with assms(2) have s: "shaped_schema (json_body_schema methodObj)"
    by (simp add: absent_or_def)
  then obtain schema where schema: "json_body_schema methodObj = JObj schema"
    by (cases "json_body_schema methodObj") (simp_all add: shaped_schema_def is_object_def)
  from s schema have "\<forall>(nm, prp)\<in>set (declared_properties (JObj schema)). readable prp"
    by (auto simp: shaped_schema_def list_all_iff is_object_readable)
  from properties_loop_readable [OF this]
    parse_request_body_schema [OF is_object_readable [OF assms(1)] schema]
  show ?thesis by simp
qed

lemma parse_responses_shaped:
  assumes "is_object methodObj"
    and "list_all is_object (map snd (declared_responses methodObj))"
  shows "parse_responses methodObj \<noteq> None"
proof -
  from assms(2) have "\<forall>(code, response)\<in>set (declared_responses methodObj). readable response"
    by (auto simp: list_all_iff is_object_readable)
  from responses_loop_readable [OF this]
    parse_responses_readable [OF is_object_readable [OF assms(1)]]
  show ?thesis by simp
qed

lemma parse_operation_shaped:
  assumes "shaped_operation methodObj"
  shows "\<exists>e ts. parse_operation pth mth methodObj = Some e \<and> tags e = JArr (map JStr ts)"
proof -
  from assms have obj: "is_object methodObj"
    and t: "absent_or (array_of is_string) (opt_prop methodObj ''tags'')"
    by (simp_all add: shaped_operation_def)
  from assms obtain declared where d: "parse_parameters methodObj [] = Some declared"
    using parse_parameters_shaped [of methodObj "[]"] by (auto simp: shaped_operation_def)
  from assms obtain params where p: "parse_request_body methodObj declared = Some params"
    using parse_request_body_shaped [of methodObj declared] by (auto simp: shaped_operation_def)
  from assms obtain resps where r: "parse_responses methodObj = Some resps"
    using parse_responses_shaped [of methodObj] by (auto simp: shaped_operation_def)
  have "\<exists>ts. js_or (opt_prop methodObj ''tags'') (JArr []) = JArr (map JStr ts)"
  proof (cases "opt_prop methodObj ''tags'' = JUndefined")
    case True
    then have "js_or (opt_prop methodObj ''tags'') (JArr []) = JArr (map JStr [])"
      by (simp add: js_or_def)
    then show ?thesis by blast
  next
    case False
    with t obtain ts where "opt_prop methodObj ''tags'' = JArr (map JStr ts)"
      using string_array by (auto simp: absent_or_def)
    then show ?thesis by (auto simp: js_or_def)
  qed
  then obtain ts where ts: "js_or (opt_prop methodObj ''tags'') (JArr []) = JArr (map JStr ts)"
    by blast
  define e where "e = \<lparr>path = pth, e_method = as_http_method (toUpperCase mth),
            summary = js_or (opt_prop methodObj ''summary'') (JStr []),
            e_description = js_or (opt_prop methodObj ''description'') (JStr []),
            parameters = params, responses = resps, tags = JArr (map JStr ts)\<rparr>"
  have pe: "parse_operation pth mth methodObj = Some e"
    using d p r ts
    by (simp add: e_def parse_operation_def get_prop_readable is_object_readable [OF obj])
  have te: "tags e = JArr (map JStr ts)"
    by (simp add: e_def)
  from pe te show ?thesis
    by blast
qed

lemma string_tags_map [simp]: "string_tags (e\<lparr>tags := JArr (map JStr ts)\<rparr>)"
  by (simp add: string_tags_def array_of_def list_all_iff is_string_def)

lemma methods_loop_shaped:
  assumes "list_all shaped_operation
             (map snd (filter (\<lambda>(m, methodObj). m \<in> set supported_verbs) ents))"
    and "list_all string_tags eps"
  shows "\<exists>res. methods_loop pth ents eps = Some res \<and> list_all string_tags res"
  using assms
proof (induction ents arbitrary: eps)
  case Nil
  then show ?case by simp
next
  case (Cons ent ents)
  obtain m methodObj where ent: "ent = (m, methodObj)" by (cases ent)
  show ?case
  proof (cases "m \<in> set supported_verbs")
    case True
    with Cons.prems(1) ent have op: "shaped_operation methodObj"
      and rest: "list_all shaped_operation
             (map snd (filter (\<lambda>(m, methodObj). m \<in> set supported_verbs) ents))"
      by simp_all
    from parse_operation_shaped [OF op, of pth m]
    obtain e ts where e: "parse_operation pth m methodObj = Some e"
      and ts: "tags e = JArr (map JStr ts)"
      by blast
    from ts have "string_tags e"
      by (simp add: string_tags_def array_of_def list_all_iff is_string_def)
    with Cons.prems(2) have "list_all string_tags (eps @ [e])" by simp
    from Cons.IH [OF rest this] e True ent show ?thesis
      by (simp add: supported_verbs_def)
  next
    case False
    with Cons.prems(1) ent have rest: "list_all shaped_operation
             (map snd (filter (\<lambda>(m, methodObj). m \<in> set supported_verbs) ents))"
      by simp
    from Cons.IH [OF rest Cons.prems(2)] False ent show ?thesis
      by (simp add: supported_verbs_def)
  qed
qed

lemma paths_loop_shaped:
  assumes "list_all shaped_path_item (map snd ents)" and "list_all string_tags eps"
  shows "\<exists>res. paths_loop ents eps = Some res \<and> list_all string_tags res"
  using assms
proof (induction ents arbitrary: eps)
  case Nil
  then show ?case by simp
next
  case (Cons ent ents)
  obtain p pathObj where ent: "ent = (p, pathObj)" by (cases ent)
  with Cons.prems(1) have item: "shaped_path_item pathObj"
    and rest: "list_all shaped_path_item (map snd ents)"
    by simp_all
  from item obtain kvs where kvs: "pathObj = JObj kvs"
    by (cases pathObj) (simp_all add: shaped_path_item_def is_object_def)
  with item have "list_all shaped_operation
      (map snd (filter (\<lambda>(m, methodObj). m \<in> set supported_verbs) kvs))"
    by (simp add: shaped_path_item_def supported_entries_def entries_of_def)
  from methods_loop_shaped [OF this Cons.prems(2), of p]
  obtain es where es: "methods_loop p kvs eps = Some es" and t: "list_all string_tags es"
    by blast
  from Cons.IH [OF rest t] es kvs ent show ?case
    by simp
qed

lemma generateCapabilities_string_tags:
  assumes "list_all string_tags es"
  shows "generateCapabilities es \<noteq> None"
proof -
  have "\<forall>e\<in>set es. tags e = JArr (map JStr (SOME ts. tags e = JArr (map JStr ts)))"
  proof
    fix e
    assume "e \<in> set es"
    with assms have "array_of is_string (tags e)"
      by (simp add: list_all_iff string_tags_def)
    then have "\<exists>ts. tags e = JArr (map JStr ts)"
      by (rule string_array)
    then show "tags e = JArr (map JStr (SOME ts. tags e = JArr (map JStr ts)))"
      by (rule someI_ex)
  qed
  from added_capabilities_strings [OF this] show ?thesis
    by (simp add: generateCapabilities_eq)
qed

lemma transform_parsed_shaped:
  assumes "shaped_document parsed"
  shows "\<exists>api. transform_parsed parsed = Some api"
proof -
  from assms have obj: "is_object parsed"
    and paths: "absent_or shaped_paths (opt_prop parsed ''paths'')"
    by (simp_all add: shaped_document_def)
  note r = is_object_readable [OF obj]
  let ?paths = "js_or (opt_prop parsed ''paths'') (JObj [])"
  have "list_all shaped_path_item (map snd (entries_of ?paths))"
  proof (cases "opt_prop parsed ''paths'' = JUndefined")
    case True
    then show ?thesis by (simp add: js_or_def entries_of_def)
  next
    case False
    with paths have "shaped_paths (opt_prop parsed ''paths'')"
      by (simp add: absent_or_def)
    then show ?thesis
      by (cases "opt_prop parsed ''paths''") (simp_all add: shaped_paths_def is_object_def js_or_def)
  qed
  from paths_loop_shaped [OF this, of "[]"]
  obtain eps where eps: "paths_loop (entries_of ?paths) [] = Some eps"
    and t: "list_all string_tags eps"
    by auto
  from generateCapabilities_string_tags [OF t]
  obtain caps where caps: "generateCapabilities eps = Some caps"
    by blast
  obtain auth where auth: "parseAuthentication parsed = Some auth"
    using parseAuthentication_eq [OF r] by blast
  show ?thesis
    using eps caps auth
    by (simp add: transform_parsed_def get_prop_readable [OF r] Object_entries_or_empty)
qed

text \<open>
  Claim C3. The OpenAPI branch returns a result for every document of the declared shape.
  Where it returns a result for a document, the endpoints are, in the order of the
  document, the (path, method) pairs of its \<open>paths\<close> mapping whose method key is one of
  \<open>get\<close>, \<open>post\<close>, \<open>put\<close>, \<open>delete\<close>, \<open>patch\<close>, each with its path and its method in upper
  case, so their number is the number of those pairs; a pair with any other key, such as
  \<open>options\<close> or \<open>head\<close>, gives no endpoint.
\<close>

theorem transform_parsed_endpoint_count:
  "(shaped_document parsed \<longrightarrow> (\<exists>api. transform_parsed parsed = Some api))
   \<and> (\<forall>api. transform_parsed parsed = Some api \<longrightarrow>
         length (endpoints api) =
           length (filter (\<lambda>(p, m). m \<in> set supported_verbs) (path_method_pairs parsed))
         \<and> map (\<lambda>e. (path e, method_name (e_method e))) (endpoints api) =
             map (\<lambda>(p, m). (p, toUpperCase m))
               (filter (\<lambda>(p, m). m \<in> set supported_verbs) (path_method_pairs parsed)))"
proof (intro conjI impI allI)
  assume "shaped_document parsed"
  then show "\<exists>api. transform_parsed parsed = Some api"
    by (rule transform_parsed_shaped)
next
  fix api
  assume a: "transform_parsed parsed = Some api"
  show k: "map (\<lambda>e. (path e, method_name (e_method e))) (endpoints api) =
             map (\<lambda>(p, m). (p, toUpperCase m))
               (filter (\<lambda>(p, m). m \<in> set supported_verbs) (path_method_pairs parsed))"
    using transform_parsed_endpoints [OF a] by (simp add: endpoint_key_def [abs_def])
  from map_eq_imp_length_eq [OF k]
  show "length (endpoints api) =
           length (filter (\<lambda>(p, m). m \<in> set supported_verbs) (path_method_pairs parsed))" .
qed

theorem transform_parsed_endpoint_count_witness:
  "shaped_document sample_document
   \<and> (\<exists>api. transform_parsed sample_document = Some api
      \<and> length (endpoints api) = 3
      \<and> map (\<lambda>e. (path e, method_name (e_method e))) (endpoints api)
          = [(''/orders'', ''GET''), (''/orders'', ''POST''), (''/orders/{id}'', ''DELETE'')])
   \<and> path_method_pairs sample_document
       = [(''/orders'', ''get''), (''/orders'', ''options''), (''/orders'', ''post''),
          (''/orders/{id}'', ''head''), (''/orders/{id}'', ''delete'')]"
proof -
  have s: "shaped_document sample_document"
    by code_simp
  note t = transform_parsed_endpoint_count [of sample_document]
  from t s obtain api where api: "transform_parsed sample_document = Some api"
    by (elim conjE impE) (assumption, erule exE)
  have pairs: "path_method_pairs sample_document
       = [(''/orders'', ''get''), (''/orders'', ''options''), (''/orders'', ''post''),
          (''/orders/{id}'', ''head''), (''/orders/{id}'', ''delete'')]"
    by code_simp
  have f: "map (\<lambda>(p, m). (p, toUpperCase m))
        (filter (\<lambda>(p, m). m \<in> set supported_verbs)
          [(''/orders'', ''get''), (''/orders'', ''options''), (''/orders'', ''post''),
           (''/orders/{id}'', ''head''), (''/orders/{id}'', ''delete'')])
      = [(''/orders'', ''GET''), (''/orders'', ''POST''), (''/orders/{id}'', ''DELETE'')]"
    by code_simp
  have g: "length (filter (\<lambda>(p, m). m \<in> set supported_verbs)
          [(''/orders'', ''get''), (''/orders'', ''options''), (''/orders'', ''post''),
           (''/orders/{id}'', ''head''), (''/orders/{id}'', ''delete'')]) = 3"
    by code_simp
  from t have "transform_parsed sample_document = Some api \<longrightarrow>
         length (endpoints api) =
           length (filter (\<lambda>(p, m). m \<in> set supported_verbs)
             (path_method_pairs sample_document))
         \<and> map (\<lambda>e. (path e, method_name (e_method e))) (endpoints api) =
             map (\<lambda>(p, m). (p, toUpperCase m))
               (filter (\<lambda>(p, m). m \<in> set supported_verbs)
                 (path_method_pairs sample_document))"
    by (elim conjE) (erule spec)
  with api have
    "length (endpoints api) = 3
      \<and> map (\<lambda>e. (path e, method_name (e_method e))) (endpoints api)
          = [(''/orders'', ''GET''), (''/orders'', ''POST''), (''/orders/{id}'', ''DELETE'')]"
    by (simp only: pairs f g simp_thms)
  then have "\<exists>api. transform_parsed sample_document = Some api
      \<and> length (endpoints api) = 3
      \<and> map (\<lambda>e. (path e, method_name (e_method e))) (endpoints api)
          = [(''/orders'', ''GET''), (''/orders'', ''POST''), (''/orders/{id}'', ''DELETE'')]"
    using api by (intro exI [of _ api] conjI) (elim conjE, assumption)+
  with s show ?thesis
    using pairs by (intro conjI)
qed

end
